theory Spec2Isabelle
  imports Complex_Main "HOL-Library.Sublist"
begin

section \<open>JavaScript values\<close>

text \<open>
  The server (\<^verbatim>\<open>src/server/server.ts\<close>) receives JSON, validates it with zod schemas and
  answers with JSON. A JavaScript number is an IEEE double; the model keeps its exact
  rational value and the two infinities (\<^verbatim>\<open>JSON.parse\<close> never yields NaN). A string is a
  list of code units; a \<^typ>\<open>char\<close> stands for one UTF-16 code unit below 256, so the
  strings of the model are the Latin-1 strings and \<^const>\<open>length\<close> is \<^verbatim>\<open>.length\<close>.
  An object is read only through property lookup, so it is an association list.
\<close>

datatype number = Finite rat | PosInfinity | NegInfinity

datatype jsval =
    VUndefined
  | VNull
  | VBool bool
  | VNum number
  | VStr string
  | VArr "jsval list"
  | VObj "(string \<times> jsval) list"

text \<open>\<^verbatim>\<open>data[key]\<close> on an object: the member, or \<^verbatim>\<open>undefined\<close>.\<close>

fun get_prop :: "jsval \<Rightarrow> string \<Rightarrow> jsval" where
  "get_prop (VObj kvs) k = (case map_of kvs k of Some v \<Rightarrow> v | None \<Rightarrow> VUndefined)"
| "get_prop _ k = VUndefined"

text \<open>\<^verbatim>\<open>Number.isInteger\<close>, and the comparisons of a number with a finite bound.\<close>

fun isInteger :: "number \<Rightarrow> bool" where
  "isInteger (Finite q) = (of_int \<lfloor>q\<rfloor> = q)"
| "isInteger _ = False"

fun num_lt :: "number \<Rightarrow> rat \<Rightarrow> bool" where
  "num_lt (Finite q) b = (q < b)"
| "num_lt NegInfinity b = True"
| "num_lt PosInfinity b = False"

fun num_gt :: "number \<Rightarrow> rat \<Rightarrow> bool" where
  "num_gt (Finite q) b = (q > b)"
| "num_gt PosInfinity b = True"
| "num_gt NegInfinity b = False"

text \<open>Decimal digits of a natural number, as \<^verbatim>\<open>String(n)\<close> prints an array index.\<close>

definition digit_char :: "nat \<Rightarrow> char" where
  "digit_char d = ''0123456789'' ! d"

fun show_nat :: "nat \<Rightarrow> string" where
  "show_nat n = (if n < 10 then [digit_char n] else show_nat (n div 10) @ [digit_char (n mod 10)])"

declare show_nat.simps [simp del]

text \<open>
  \<^verbatim>\<open>String.prototype.toLowerCase\<close> on Latin-1 code units: the ASCII capitals and the
  capitals U+00C0 to U+00DE (but the multiplication sign U+00D7) move up by 32.
\<close>

definition lower_char :: "char \<Rightarrow> char" where
  "lower_char c =
     (let n = (of_char c :: nat)
      in if (65 \<le> n \<and> n \<le> 90) \<or> (192 \<le> n \<and> n \<le> 222 \<and> n \<noteq> 215) then char_of (n + 32) else c)"

definition toLowerCase :: "string \<Rightarrow> string" where
  "toLowerCase s = map lower_char s"

text \<open>\<^verbatim>\<open>Array.prototype.join\<close> on an array of strings.\<close>

fun join :: "string \<Rightarrow> string list \<Rightarrow> string" where
  "join sep [] = []"
| "join sep [x] = x"
| "join sep (x # y # ys) = x @ sep @ join sep (y # ys)"

section \<open>The zod validator\<close>

text \<open>
  zod (version 3, whose \<^verbatim>\<open>ZodError\<close> has the \<^verbatim>\<open>errors\<close> member the handlers read) is a
  library, not part of the repository; its combinators are modelled as far as the two
  schemas use them. A schema parses a value at a path and either returns the validated
  output or the issues it added. An issue has a \<^verbatim>\<open>code\<close>, a \<^verbatim>\<open>path\<close>, a \<^verbatim>\<open>message\<close> and
  the further members of its kind (\<^verbatim>\<open>expected\<close> and \<^verbatim>\<open>received\<close>, \<^verbatim>\<open>minimum\<close>,
  \<^verbatim>\<open>unionErrors\<close>, ...), kept as \<open>params\<close>. zod's third parse status, a dirty
  result that still carries a value, is folded into failure: a parse that added an
  issue never yields output, in zod as here.
\<close>

datatype key = KStr string | KIdx nat

datatype issue_code = invalid_type | too_small | too_big | invalid_string | invalid_union

record issue =
  code :: issue_code
  params :: "(string \<times> jsval) list"
  path :: "key list"
  message :: string

type_synonym 'a ZodType = "key list \<Rightarrow> jsval \<Rightarrow> issue list + 'a"

fun getParsedType :: "jsval \<Rightarrow> string" where
  "getParsedType VUndefined = ''undefined''"
| "getParsedType VNull = ''null''"
| "getParsedType (VBool b) = ''boolean''"
| "getParsedType (VNum x) = ''number''"
| "getParsedType (VStr s) = ''string''"
| "getParsedType (VArr xs) = ''array''"
| "getParsedType (VObj kvs) = ''object''"

text \<open>An issue as \<^verbatim>\<open>res.json\<close> serialises it.\<close>

fun issue_code_str :: "issue_code \<Rightarrow> string" where
  "issue_code_str invalid_type = ''invalid_type''"
| "issue_code_str too_small = ''too_small''"
| "issue_code_str too_big = ''too_big''"
| "issue_code_str invalid_string = ''invalid_string''"
| "issue_code_str invalid_union = ''invalid_union''"

fun key_json :: "key \<Rightarrow> jsval" where
  "key_json (KStr s) = VStr s"
| "key_json (KIdx i) = VNum (Finite (of_nat i))"

definition issue_json :: "issue \<Rightarrow> jsval" where
  "issue_json err =
     VObj ((''code'', VStr (issue_code_str (code err))) # params err @
           [(''path'', VArr (map key_json (path err))),
            (''message'', VStr (message err))])"

text \<open>A \<^verbatim>\<open>ZodError\<close> inside a response: its enumerable members are \<^verbatim>\<open>issues\<close> and \<^verbatim>\<open>name\<close>.\<close>

definition ZodError_json :: "issue list \<Rightarrow> jsval" where
  "ZodError_json is = VObj [(''issues'', VArr (map issue_json is)), (''name'', VStr ''ZodError'')]"

text \<open>The members of a \<^verbatim>\<open>too_small\<close> or \<^verbatim>\<open>too_big\<close> issue beside code, path and message.\<close>

definition size_params :: "string \<Rightarrow> string \<Rightarrow> rat \<Rightarrow> (string \<times> jsval) list" where
  "size_params bound ty n =
     [(bound, VNum (Finite n)), (''type'', VStr ty), (''inclusive'', VBool True),
      (''exact'', VBool False)]"


text \<open>An \<^verbatim>\<open>invalid_type\<close> issue with the message of zod's default error map.\<close>

definition invalid_type_issue :: "string \<Rightarrow> jsval \<Rightarrow> key list \<Rightarrow> issue" where
  "invalid_type_issue expected v p =
     \<lparr>code = invalid_type,
      params = [(''expected'', VStr expected), (''received'', VStr (getParsedType v))],
      path = p,
      message = (case v of VUndefined \<Rightarrow> ''Required''
                 | _ \<Rightarrow> ''Expected '' @ expected @ '', received '' @ getParsedType v)\<rparr>"

fun issues_of :: "issue list + 'a \<Rightarrow> issue list" where
  "issues_of (Inl is) = is"
| "issues_of (Inr v) = []"

subsection \<open>\<^verbatim>\<open>z.string()\<close> and its checks\<close>

text \<open>
  The checks run in the order of the chain, each on the data the earlier ones left;
  a failed check adds its issue and the later checks still run. The pattern of the
  \<^verbatim>\<open>email\<close> check is a constant of the library and differs between its releases, so
  the check takes it as a parameter.
\<close>

datatype string_check =
    StrMin nat string
  | StrMax nat string
  | StrEmail "string \<Rightarrow> bool" string
  | StrToLowerCase

fun run_string_check :: "key list \<Rightarrow> string_check \<Rightarrow> string \<Rightarrow> issue list \<times> string" where
  "run_string_check p (StrMin n msg) s =
     (if length s < n
      then [\<lparr>code = too_small, params = size_params ''minimum'' ''string'' (of_nat n),
             path = p, message = msg\<rparr>]
      else [], s)"
| "run_string_check p (StrMax n msg) s =
     (if length s > n
      then [\<lparr>code = too_big, params = size_params ''maximum'' ''string'' (of_nat n),
             path = p, message = msg\<rparr>]
      else [], s)"
| "run_string_check p (StrEmail emailRegex msg) s =
     (if \<not> emailRegex s
      then [\<lparr>code = invalid_string, params = [(''validation'', VStr ''email'')],
             path = p, message = msg\<rparr>]
      else [], s)"
| "run_string_check p StrToLowerCase s = ([], toLowerCase s)"

fun string_checks :: "key list \<Rightarrow> string_check list \<Rightarrow> string \<Rightarrow> issue list \<times> string" where
  "string_checks p [] s = ([], s)"
| "string_checks p (c # cs) s =
     (case run_string_check p c s of (is1, s1) \<Rightarrow>
        (case string_checks p cs s1 of (is2, s2) \<Rightarrow> (is1 @ is2, s2)))"

definition z_string :: "string_check list \<Rightarrow> string ZodType" where
  "z_string checks p v =
     (case v of
        VStr s \<Rightarrow> (case string_checks p checks s of ([], s') \<Rightarrow> Inr s' | (is, s') \<Rightarrow> Inl is)
      | _ \<Rightarrow> Inl [invalid_type_issue ''string'' v p])"

subsection \<open>\<^verbatim>\<open>z.number()\<close> and its checks\<close>

datatype number_check = NumInt | NumMin rat string | NumMax rat string

fun run_number_check :: "key list \<Rightarrow> number_check \<Rightarrow> number \<Rightarrow> issue list" where
  "run_number_check p NumInt x =
     (if \<not> isInteger x
      then [\<lparr>code = invalid_type,
             params = [(''expected'', VStr ''integer''), (''received'', VStr ''float'')],
             path = p, message = ''Expected integer, received float''\<rparr>]
      else [])"
| "run_number_check p (NumMin b msg) x =
     (if num_lt x b
      then [\<lparr>code = too_small, params = size_params ''minimum'' ''number'' b,
             path = p, message = msg\<rparr>]
      else [])"
| "run_number_check p (NumMax b msg) x =
     (if num_gt x b
      then [\<lparr>code = too_big, params = size_params ''maximum'' ''number'' b,
             path = p, message = msg\<rparr>]
      else [])"

definition z_number :: "number_check list \<Rightarrow> number ZodType" where
  "z_number checks p v =
     (case v of
        VNum x \<Rightarrow> (case concat (map (\<lambda>c. run_number_check p c x) checks) of
                     [] \<Rightarrow> Inr x | i # is \<Rightarrow> Inl (i # is))
      | _ \<Rightarrow> Inl [invalid_type_issue ''number'' v p])"

subsection \<open>\<^verbatim>\<open>optional\<close>, \<^verbatim>\<open>default\<close>, \<^verbatim>\<open>union\<close>, \<^verbatim>\<open>array\<close>, \<^verbatim>\<open>object\<close>\<close>

definition z_optional :: "'a ZodType \<Rightarrow> 'a option ZodType" where
  "z_optional inner p v =
     (case v of VUndefined \<Rightarrow> Inr None | _ \<Rightarrow> map_sum id Some (inner p v))"

text \<open>\<^verbatim>\<open>default(d)\<close> replaces \<^verbatim>\<open>undefined\<close> by \<^verbatim>\<open>d\<close> and parses that with the inner schema.\<close>

definition z_default :: "jsval \<Rightarrow> 'a ZodType \<Rightarrow> 'a ZodType" where
  "z_default d inner p v = inner p (case v of VUndefined \<Rightarrow> d | _ \<Rightarrow> v)"

text \<open>
  A union tries its options in order, each with an issue list of its own, and returns
  the first valid result; when none is valid it adds the one issue \<^verbatim>\<open>invalid_union\<close>,
  whose \<^verbatim>\<open>unionErrors\<close> hold a \<^verbatim>\<open>ZodError\<close> for every option that added issues.
\<close>

definition z_union :: "'a ZodType \<Rightarrow> 'b ZodType \<Rightarrow> ('a + 'b) ZodType" where
  "z_union opt1 opt2 p v =
     (case opt1 p v of
        Inr a \<Rightarrow> Inr (Inl a)
      | Inl is1 \<Rightarrow>
          (case opt2 p v of
             Inr b \<Rightarrow> Inr (Inr b)
           | Inl is2 \<Rightarrow>
               Inl [\<lparr>code = invalid_union,
                     params = [(''unionErrors'',
                                VArr (map ZodError_json (filter (\<lambda>is. is \<noteq> []) [is1, is2])))],
                     path = p, message = ''Invalid input''\<rparr>]))"

text \<open>
  An array parses every element at its index; an object parses every key of its shape.
  Both parse all their children before merging, so the issues of all of them are kept.
\<close>

fun merge2 :: "issue list + 'a \<Rightarrow> issue list + 'b \<Rightarrow> issue list + ('a \<times> 'b)" where
  "merge2 (Inr a) (Inr b) = Inr (a, b)"
| "merge2 ra rb = Inl (issues_of ra @ issues_of rb)"

fun mergeArray :: "(issue list + 'a) list \<Rightarrow> issue list + 'a list" where
  "mergeArray [] = Inr []"
| "mergeArray (r # rs) = map_sum id (\<lambda>(x, xs). x # xs) (merge2 r (mergeArray rs))"

fun parse_items :: "'a ZodType \<Rightarrow> key list \<Rightarrow> nat \<Rightarrow> jsval list \<Rightarrow> (issue list + 'a) list" where
  "parse_items item p i [] = []"
| "parse_items item p i (x # xs) = item (p @ [KIdx i]) x # parse_items item p (Suc i) xs"

definition z_array :: "'a ZodType \<Rightarrow> 'a list ZodType" where
  "z_array item p v =
     (case v of
        VArr xs \<Rightarrow> mergeArray (parse_items item p 0 xs)
      | _ \<Rightarrow> Inl [invalid_type_issue ''array'' v p])"

definition field :: "string \<times> 'a ZodType \<Rightarrow> key list \<Rightarrow> jsval \<Rightarrow> issue list + 'a" where
  "field kt p v = (snd kt) (p @ [KStr (fst kt)]) (get_prop v (fst kt))"

definition z_object1 :: "string \<times> 'a ZodType \<Rightarrow> ('a \<Rightarrow> 'r) \<Rightarrow> 'r ZodType" where
  "z_object1 f1 mk p v =
     (case v of
        VObj kvs \<Rightarrow> map_sum id mk (field f1 p v)
      | _ \<Rightarrow> Inl [invalid_type_issue ''object'' v p])"

definition z_object2 ::
  "string \<times> 'a ZodType \<Rightarrow> string \<times> 'b ZodType \<Rightarrow> ('a \<Rightarrow> 'b \<Rightarrow> 'r) \<Rightarrow> 'r ZodType" where
  "z_object2 f1 f2 mk p v =
     (case v of
        VObj kvs \<Rightarrow> map_sum id (\<lambda>(a, b). mk a b) (merge2 (field f1 p v) (field f2 p v))
      | _ \<Rightarrow> Inl [invalid_type_issue ''object'' v p])"

definition z_object3 ::
  "string \<times> 'a ZodType \<Rightarrow> string \<times> 'b ZodType \<Rightarrow> string \<times> 'c ZodType \<Rightarrow>
   ('a \<Rightarrow> 'b \<Rightarrow> 'c \<Rightarrow> 'r) \<Rightarrow> 'r ZodType" where
  "z_object3 f1 f2 f3 mk p v =
     (case v of
        VObj kvs \<Rightarrow>
          map_sum id (\<lambda>(a, b, c). mk a b c)
            (merge2 (field f1 p v) (merge2 (field f2 p v) (field f3 p v)))
      | _ \<Rightarrow> Inl [invalid_type_issue ''object'' v p])"

definition z_object4 ::
  "string \<times> 'a ZodType \<Rightarrow> string \<times> 'b ZodType \<Rightarrow> string \<times> 'c ZodType \<Rightarrow>
   string \<times> 'd ZodType \<Rightarrow> ('a \<Rightarrow> 'b \<Rightarrow> 'c \<Rightarrow> 'd \<Rightarrow> 'r) \<Rightarrow> 'r ZodType" where
  "z_object4 f1 f2 f3 f4 mk p v =
     (case v of
        VObj kvs \<Rightarrow>
          map_sum id (\<lambda>(a, b, c, d). mk a b c d)
            (merge2 (field f1 p v)
               (merge2 (field f2 p v) (merge2 (field f3 p v) (field f4 p v))))
      | _ \<Rightarrow> Inl [invalid_type_issue ''object'' v p])"

text \<open>\<^verbatim>\<open>schema.parse(data)\<close> starts at the empty path and throws a \<^verbatim>\<open>ZodError\<close> on failure.\<close>

datatype error = ZodError (errors: "issue list") | TypeError | RangeError | FetchError

definition parse :: "'a ZodType \<Rightarrow> jsval \<Rightarrow> error + 'a" where
  "parse schema data = (case schema [] data of Inl is \<Rightarrow> Inl (ZodError is) | Inr v \<Rightarrow> Inr v)"

section \<open>The schemas of the server\<close>

record name_obj =
  first :: string
  last' :: string

record location_obj =
  country :: string
  city :: string
  postcode :: "string + number"

record login_obj =
  username :: string

record registered_obj =
  date :: string

record person =
  name :: name_obj
  location :: location_obj
  login :: login_obj
  registered :: registered_obj

record api_response =
  results :: "person list"

definition RandomUserApiResponseSchema :: "api_response ZodType" where
  "RandomUserApiResponseSchema =
     z_object1
       (''results'', z_array (z_object4
          (''name'', z_object2
             (''first'', z_string [])
             (''last'', z_string [])
             (\<lambda>f l. \<lparr>first = f, last' = l\<rparr>))
          (''location'', z_object3
             (''country'', z_string [])
             (''city'', z_string [])
             (''postcode'', z_union (z_string []) (z_number []))
             (\<lambda>co ci pc. \<lparr>country = co, city = ci, postcode = pc\<rparr>))
          (''login'', z_object1
             (''username'', z_string [])
             (\<lambda>u. \<lparr>username = u\<rparr>))
          (''registered'', z_object1
             (''date'', z_string [])
             (\<lambda>d. \<lparr>date = d\<rparr>))
          (\<lambda>n l lg r. \<lparr>name = n, location = l, login = lg, registered = r\<rparr>)))
       (\<lambda>rs. \<lparr>results = rs\<rparr>)"

record user =
  name :: string
  age :: "number option"
  email :: string

definition UserSchema :: "(string \<Rightarrow> bool) \<Rightarrow> user ZodType" where
  "UserSchema emailRegex =
     z_object3
       (''name'', z_string [StrMin 3 ''Name must be at least 3 characters'',
                            StrMax 12 ''Name must be at most 12 characters''])
       (''age'', z_default (VNum (Finite 28))
                   (z_optional (z_number [NumInt, NumMin 18 ''Age must be at least 18'',
                                          NumMax 100 ''Age must be at most 100''])))
       (''email'', z_string [StrEmail emailRegex ''Must be a valid email'', StrToLowerCase])
       (\<lambda>n a e. \<lparr>name = n, age = a, email = e\<rparr>)"

section \<open>The handlers\<close>

record response =
  status :: nat
  body :: jsval

text \<open>
  \<^verbatim>\<open>await fetch(url)\<close> followed by \<^verbatim>\<open>await response.json()\<close> either throws (no
  network, a body that is not JSON) or yields the parsed body, whatever the status of
  the upstream answer.
\<close>

datatype fetched = Failed | Json jsval

fun fetch_json :: "fetched \<Rightarrow> error + jsval" where
  "fetch_json Failed = Inl FetchError"
| "fetch_json (Json data) = Inr data"

text \<open>\<^verbatim>\<open>xs[0]\<close>: the first element, or \<^verbatim>\<open>undefined\<close> on an empty array.\<close>

fun index0 :: "'a list \<Rightarrow> 'a option" where
  "index0 [] = None"
| "index0 (x # xs) = Some x"

text \<open>
  The \<^verbatim>\<open>catch\<close> block shared by the three random routes: a \<^verbatim>\<open>ZodError\<close> is answered
  with its issues as they are (\<^verbatim>\<open>details: error.errors\<close>), anything else with the
  generic message of the route. The \<^verbatim>\<open>console.error\<close> line is not modelled.
\<close>

definition random_catch :: "string \<Rightarrow> error \<Rightarrow> response" where
  "random_catch what e =
     (case e of
        ZodError errs \<Rightarrow>
          \<lparr>status = 500,
           body = VObj [(''error'', VStr ''Invalid response from RandomUser API''),
                        (''details'', VArr (map issue_json errs))]\<rparr>
      | _ \<Rightarrow> \<lparr>status = 500, body = VObj [(''error'', VStr (''Failed to fetch random '' @ what))]\<rparr>)"

text \<open>
  The first three statements of each \<^verbatim>\<open>try\<close> block: fetch, validate, take
  \<^verbatim>\<open>results[0]\<close>, which is \<^verbatim>\<open>undefined\<close> when the array is empty.
\<close>

definition fetch_person :: "fetched \<Rightarrow> error + person option" where
  "fetch_person upstream =
     (case fetch_json upstream of
        Inl e \<Rightarrow> Inl e
      | Inr data \<Rightarrow>
          (case parse RandomUserApiResponseSchema data of
             Inl e \<Rightarrow> Inl e
           | Inr validatedData \<Rightarrow> Inr (index0 (results validatedData))))"

text \<open>Reading a property of \<^verbatim>\<open>undefined\<close> throws a \<^verbatim>\<open>TypeError\<close>, caught like the rest.\<close>

definition random_person :: "fetched \<Rightarrow> response" where
  "random_person upstream =
     (case fetch_person upstream of
        Inl e \<Rightarrow> random_catch ''person'' e
      | Inr None \<Rightarrow> random_catch ''person'' TypeError
      | Inr (Some p) \<Rightarrow>
          \<lparr>status = 200,
           body = VObj [(''fullName'', VStr (first (person.name p) @ '' '' @ last' (person.name p))),
                        (''country'', VStr (country (location p)))]\<rparr>)"

text \<open>
  \<^verbatim>\<open>postcode.toString()\<close>: a string is returned as it is, a number is printed by
  \<^verbatim>\<open>Number.prototype.toString\<close>, which is also what \<^verbatim>\<open>String(postcode)\<close> yields for both.
  An integer of magnitude up to \<open>2^53\<close> prints as its decimal digits; how the
  runtime prints any other finite double (shortest round-trip digits, exponents) is a
  parameter.
\<close>

definition show_int :: "int \<Rightarrow> string" where
  "show_int i = (if i < 0 then ''-'' @ show_nat (nat (- i)) else show_nat (nat i))"

definition Number_toString :: "(rat \<Rightarrow> string) \<Rightarrow> number \<Rightarrow> string" where
  "Number_toString fmt x =
     (case x of
        PosInfinity \<Rightarrow> ''Infinity''
      | NegInfinity \<Rightarrow> ''-Infinity''
      | Finite q \<Rightarrow> if of_int \<lfloor>q\<rfloor> = q \<and> \<bar>q\<bar> \<le> 2 ^ 53 then show_int \<lfloor>q\<rfloor> else fmt q)"

fun toString :: "(rat \<Rightarrow> string) \<Rightarrow> string + number \<Rightarrow> string" where
  "toString fmt (Inl s) = s"
| "toString fmt (Inr x) = Number_toString fmt x"

definition random_address :: "(rat \<Rightarrow> string) \<Rightarrow> fetched \<Rightarrow> response" where
  "random_address fmt upstream =
     (case fetch_person upstream of
        Inl e \<Rightarrow> random_catch ''address'' e
      | Inr None \<Rightarrow> random_catch ''address'' TypeError
      | Inr (Some p) \<Rightarrow>
          \<lparr>status = 200,
           body = VObj [(''city'', VStr (city (location p))),
                        (''postcode'', VStr (toString fmt (postcode (location p))))]\<rparr>)"

subsection \<open>Dates\<close>

text \<open>
  A \<^verbatim>\<open>Date\<close> holds a time value, the milliseconds since 1970-01-01T00:00:00Z, or NaN
  (\<^const>\<open>None\<close>). The calendar is the proleptic Gregorian one of ECMAScript; days are
  converted to and from a civil date by era arithmetic on 400-year cycles.
\<close>

definition msPerDay :: int where
  "msPerDay = 86400000"

definition days_from_civil :: "int \<Rightarrow> int \<Rightarrow> int \<Rightarrow> int" where
  "days_from_civil y m d =
     (let y' = (if m \<le> 2 then y - 1 else y);
          era = y' div 400;
          yoe = y' - era * 400;
          doy = (153 * (if m > 2 then m - 3 else m + 9) + 2) div 5 + d - 1;
          doe = yoe * 365 + yoe div 4 - yoe div 100 + doy
      in era * 146097 + doe - 719468)"

definition civil_from_days :: "int \<Rightarrow> int \<times> int \<times> int" where
  "civil_from_days z =
     (let z' = z + 719468;
          era = z' div 146097;
          doe = z' - era * 146097;
          yoe = (doe - doe div 1460 + doe div 36524 - doe div 146096) div 365;
          doy = doe - (365 * yoe + yoe div 4 - yoe div 100);
          mp = (5 * doy + 2) div 153;
          d = doy - (153 * mp + 2) div 5 + 1;
          m = (if mp < 10 then mp + 3 else mp - 9);
          y = yoe + era * 400
      in (if m \<le> 2 then y + 1 else y, m, d))"

definition isLeapYear :: "int \<Rightarrow> bool" where
  "isLeapYear y = (y mod 4 = 0 \<and> (y mod 100 \<noteq> 0 \<or> y mod 400 = 0))"

definition daysInMonth :: "int \<Rightarrow> int \<Rightarrow> int" where
  "daysInMonth y m =
     (if m = 2 then (if isLeapYear y then 29 else 28)
      else if m = 4 \<or> m = 6 \<or> m = 9 \<or> m = 11 then 30 else 31)"

text \<open>
  \<^verbatim>\<open>Date.parse\<close>. ECMAScript fixes the result for its date-time string format and
  leaves every other string to the implementation. The model reads the UTC forms
  \<^verbatim>\<open>YYYY-MM-DD\<close>, \<^verbatim>\<open>YYYY-MM-DDTHH:mm:ssZ\<close> and \<^verbatim>\<open>YYYY-MM-DDTHH:mm:ss.sssZ\<close> with every
  element in range; for any other string the runtime's answer is the parameter
  \<open>legacy\<close>.
\<close>

definition is_digit :: "char \<Rightarrow> bool" where
  "is_digit c = (48 \<le> (of_char c :: nat) \<and> (of_char c :: nat) \<le> 57)"

fun read_nat :: "nat \<Rightarrow> string \<Rightarrow> nat option" where
  "read_nat acc [] = Some acc"
| "read_nat acc (c # cs) =
     (if is_digit c then read_nat (10 * acc + (of_char c - 48)) cs else None)"

definition parse_date :: "string \<Rightarrow> int option" where
  "parse_date s =
     (if length s = 10 \<and> s ! 4 = CHR ''-'' \<and> s ! 7 = CHR ''-'' then
        (case (read_nat 0 (take 4 s), read_nat 0 (take 2 (drop 5 s)), read_nat 0 (drop 8 s)) of
           (Some y, Some m, Some d) \<Rightarrow>
             if 1 \<le> m \<and> m \<le> 12 \<and> 1 \<le> d \<and> int d \<le> daysInMonth (int y) (int m)
             then Some (days_from_civil (int y) (int m) (int d)) else None
         | _ \<Rightarrow> None)
      else None)"

definition parse_time :: "string \<Rightarrow> int option" where
  "parse_time s =
     (if (length s = 8 \<or> length s = 12 \<and> s ! 8 = CHR ''.'') \<and> s ! 2 = CHR '':'' \<and> s ! 5 = CHR '':'' then
        (case (read_nat 0 (take 2 s), read_nat 0 (take 2 (drop 3 s)), read_nat 0 (take 2 (drop 6 s)),
               read_nat 0 (drop 9 s)) of
           (Some h, Some mi, Some sec, Some ms) \<Rightarrow>
             if h \<le> 23 \<and> mi \<le> 59 \<and> sec \<le> 59
             then Some (int h * 3600000 + int mi * 60000 + int sec * 1000 + int ms) else None
         | _ \<Rightarrow> None)
      else None)"

definition parse_iso :: "string \<Rightarrow> int option" where
  "parse_iso s =
     (if length s = 10 then map_option (\<lambda>day. day * msPerDay) (parse_date s)
      else if (length s = 20 \<or> length s = 24) \<and> s ! 10 = CHR ''T'' \<and> s ! (length s - 1) = CHR ''Z'' then
        (case (parse_date (take 10 s), parse_time (take (length s - 12) (drop 11 s))) of
           (Some day, Some ms) \<Rightarrow> Some (day * msPerDay + ms)
         | _ \<Rightarrow> None)
      else None)"

definition Date_parse :: "(string \<Rightarrow> int option) \<Rightarrow> string \<Rightarrow> int option" where
  "Date_parse legacy s = (case parse_iso s of Some t \<Rightarrow> Some t | None \<Rightarrow> legacy s)"

text \<open>\<^verbatim>\<open>new Date(s)\<close>: a time value beyond 8.64e15 ms from the epoch is clipped to NaN.\<close>

definition new_Date :: "(string \<Rightarrow> int option) \<Rightarrow> string \<Rightarrow> int option" where
  "new_Date legacy s =
     (case Date_parse legacy s of
        Some t \<Rightarrow> if \<bar>t\<bar> \<le> 8640000000000000 then Some t else None
      | None \<Rightarrow> None)"

text \<open>
  \<^verbatim>\<open>toISOString\<close> throws a \<^verbatim>\<open>RangeError\<close> on an invalid date and else prints the UTC
  fields; a year outside 0 to 9999 is printed with a sign and six digits.
\<close>

definition pad :: "nat \<Rightarrow> nat \<Rightarrow> string" where
  "pad w n = replicate (w - length (show_nat n)) (CHR ''0'') @ show_nat n"

definition year_str :: "int \<Rightarrow> string" where
  "year_str y =
     (if 0 \<le> y \<and> y \<le> 9999 then pad 4 (nat y)
      else (if y < 0 then ''-'' else ''+'') @ pad 6 (nat \<bar>y\<bar>))"

definition date_str :: "int \<Rightarrow> string" where
  "date_str t =
     (case civil_from_days (t div msPerDay) of
        (y, m, d) \<Rightarrow> year_str y @ ''-'' @ pad 2 (nat m) @ ''-'' @ pad 2 (nat d))"

definition time_str :: "int \<Rightarrow> string" where
  "time_str t =
     (let ms = t mod msPerDay
      in pad 2 (nat (ms div 3600000)) @ '':'' @ pad 2 (nat (ms div 60000 mod 60)) @ '':'' @
         pad 2 (nat (ms div 1000 mod 60)) @ ''.'' @ pad 3 (nat (ms mod 1000)))"

definition toISOString :: "int option \<Rightarrow> error + string" where
  "toISOString tv =
     (case tv of
        None \<Rightarrow> Inl RangeError
      | Some t \<Rightarrow> Inr (date_str t @ ''T'' @ time_str t @ ''Z''))"

text \<open>\<^verbatim>\<open>s.split(c)\<close> for a separator of one character.\<close>

fun split :: "char \<Rightarrow> string \<Rightarrow> string list" where
  "split c [] = [[]]"
| "split c (x # xs) =
     (if x = c then [] # split c xs
      else (case split c xs of [] \<Rightarrow> [[x]] | y # ys \<Rightarrow> (x # y) # ys))"

text \<open>A string or \<^verbatim>\<open>undefined\<close>, inside a template literal and as a member of a response.\<close>

fun template_str :: "string option \<Rightarrow> string" where
  "template_str None = ''undefined''"
| "template_str (Some s) = s"

fun opt_json :: "string option \<Rightarrow> jsval" where
  "opt_json None = VUndefined"
| "opt_json (Some s) = VStr s"

definition random_login :: "(string \<Rightarrow> int option) \<Rightarrow> fetched \<Rightarrow> response" where
  "random_login legacy upstream =
     (case fetch_person upstream of
        Inl e \<Rightarrow> random_catch ''login'' e
      | Inr None \<Rightarrow> random_catch ''login'' TypeError
      | Inr (Some p) \<Rightarrow>
          (let registeredDate = new_Date legacy (date (registered p))
           in case toISOString registeredDate of
                Inl e \<Rightarrow> random_catch ''login'' e
              | Inr isoString \<Rightarrow>
                  (let formattedDate = index0 (split (CHR ''T'') isoString)
                   in \<lparr>status = 200,
                       body = VObj [(''username'', VStr (username (login p))),
                                    (''registeredDate'', opt_json formattedDate),
                                    (''summary'', VStr (username (login p) @ '' (registered on '' @
                                                        template_str formattedDate @ '')''))]\<rparr>)))"

subsection \<open>\<^verbatim>\<open>GET /ping\<close> and \<^verbatim>\<open>POST /users\<close>\<close>

definition ping :: response where
  "ping = \<lparr>status = 200, body = VObj [(''message'', VStr ''pong'')]\<rparr>"

text \<open>The object \<^verbatim>\<open>res.json\<close> is given for a validated user.\<close>

definition user_json :: "user \<Rightarrow> jsval" where
  "user_json u =
     VObj [(''name'', VStr (user.name u)),
           (''age'', case age u of Some a \<Rightarrow> VNum a | None \<Rightarrow> VUndefined),
           (''email'', VStr (email u))]"

fun key_str :: "key \<Rightarrow> string" where
  "key_str (KStr s) = s"
| "key_str (KIdx i) = show_nat i"

definition field_error :: "issue \<Rightarrow> jsval" where
  "field_error err =
     VObj [(''field'', VStr (join ''.'' (map key_str (path err)))),
           (''message'', VStr (message err))]"

definition post_users :: "(string \<Rightarrow> bool) \<Rightarrow> jsval \<Rightarrow> response" where
  "post_users emailRegex req_body =
     (case parse (UserSchema emailRegex) req_body of
        Inr validatedUser \<Rightarrow> \<lparr>status = 201, body = user_json validatedUser\<rparr>
      | Inl (ZodError errs) \<Rightarrow>
          \<lparr>status = 400,
           body = VObj [(''error'', VStr ''Validation failed''),
                        (''details'', VArr (map field_error errs))]\<rparr>
      | Inl _ \<Rightarrow> \<lparr>status = 500, body = VObj [(''error'', VStr ''Internal server error'')]\<rparr>)"

subsection \<open>The pattern of the \<^verbatim>\<open>email\<close> check\<close>

text \<open>
  The pattern of zod 3.23, an instance of the parameter of \<^const>\<open>StrEmail\<close>:
  \<^verbatim>\<open>/^(?!\.)(?!.*\.\.)([A-Z0-9_'+\-\.]*)[A-Z0-9_+-]@([A-Z0-9][A-Z0-9\-]*\.)+[A-Z]{2,}$/i\<close>.
  The local part is what precedes the first \<^verbatim>\<open>@\<close>; the domain is a sequence of labels
  closed by a top-level label of at least two letters.
\<close>

definition is_alpha :: "char \<Rightarrow> bool" where
  "is_alpha c = (let n = (of_char c :: nat) in (65 \<le> n \<and> n \<le> 90) \<or> (97 \<le> n \<and> n \<le> 122))"

definition is_alnum :: "char \<Rightarrow> bool" where
  "is_alnum c = (is_alpha c \<or> is_digit c)"

definition local_char :: "char \<Rightarrow> bool" where
  "local_char c = (is_alnum c \<or> c \<in> set ''_'' \<or> c = CHR 0x27 \<or> c \<in> set ''+-.'')"

definition local_last :: "char \<Rightarrow> bool" where
  "local_last c = (is_alnum c \<or> c \<in> set ''_+-'')"

definition label_ok :: "string \<Rightarrow> bool" where
  "label_ok l =
     (case l of [] \<Rightarrow> False
      | c # cs \<Rightarrow> is_alnum c \<and> list_all (\<lambda>d. is_alnum d \<or> d = CHR ''-'') cs)"

definition tld_ok :: "string \<Rightarrow> bool" where
  "tld_ok l = (2 \<le> length l \<and> list_all is_alpha l)"

fun has_dotdot :: "string \<Rightarrow> bool" where
  "has_dotdot (a # b # cs) = ((a = CHR ''.'' \<and> b = CHR ''.'') \<or> has_dotdot (b # cs))"
| "has_dotdot _ = False"

definition domain_ok :: "string \<Rightarrow> bool" where
  "domain_ok d =
     (case rev (split (CHR ''.'') d) of
        tld # l # ls \<Rightarrow> tld_ok tld \<and> list_all label_ok (l # ls)
      | _ \<Rightarrow> False)"

definition zod_emailRegex :: "string \<Rightarrow> bool" where
  "zod_emailRegex s =
     (let loc = takeWhile (\<lambda>c. c \<noteq> CHR ''@'') s; rest = dropWhile (\<lambda>c. c \<noteq> CHR ''@'') s
      in case rest of
           [] \<Rightarrow> False
         | c # domain \<Rightarrow>
             loc \<noteq> [] \<and> hd loc \<noteq> CHR ''.'' \<and> \<not> has_dotdot s \<and> list_all local_char loc \<and>
             local_last (last loc) \<and> domain_ok domain)"

section \<open>Reading a response\<close>

text \<open>The \<^verbatim>\<open>details\<close> array of a response body, and an entry \<^verbatim>\<open>{field, message}\<close> of it.\<close>

definition details_of :: "response \<Rightarrow> jsval list" where
  "details_of r = (case get_prop (body r) ''details'' of VArr ds \<Rightarrow> ds | _ \<Rightarrow> [])"

definition detail :: "string \<Rightarrow> string \<Rightarrow> jsval" where
  "detail f m = VObj [(''field'', VStr f), (''message'', VStr m)]"

text \<open>What the three keys of \<^const>\<open>UserSchema\<close> make of a request body.\<close>

definition name_result :: "jsval \<Rightarrow> issue list + string" where
  "name_result data =
     field (''name'', z_string [StrMin 3 ''Name must be at least 3 characters'',
                              StrMax 12 ''Name must be at most 12 characters'']) [] data"

definition age_result :: "jsval \<Rightarrow> issue list + number option" where
  "age_result data =
     field (''age'', z_default (VNum (Finite 28))
                     (z_optional (z_number [NumInt, NumMin 18 ''Age must be at least 18'',
                                            NumMax 100 ''Age must be at most 100'']))) [] data"

definition email_result :: "(string \<Rightarrow> bool) \<Rightarrow> jsval \<Rightarrow> issue list + string" where
  "email_result emailRegex data =
     field (''email'', z_string [StrEmail emailRegex ''Must be a valid email'', StrToLowerCase]) [] data"

text \<open>
  The constraints of a user as the specification words them: \<^verbatim>\<open>name\<close> a string of 3 to
  12 characters, \<^verbatim>\<open>age\<close> absent or an integer from 18 to 100, \<^verbatim>\<open>email\<close> a string of
  email syntax; and the fields of a body that violate theirs, in the order of the schema.
\<close>

definition name_ok :: "jsval \<Rightarrow> bool" where
  "name_ok v = (case v of VStr s \<Rightarrow> 3 \<le> length s \<and> length s \<le> 12 | _ \<Rightarrow> False)"

definition age_ok :: "jsval \<Rightarrow> bool" where
  "age_ok v =
     (case v of
        VUndefined \<Rightarrow> True
      | VNum x \<Rightarrow> (case x of Finite q \<Rightarrow> of_int \<lfloor>q\<rfloor> = q \<and> 18 \<le> q \<and> q \<le> 100 | _ \<Rightarrow> False)
      | _ \<Rightarrow> False)"

definition email_ok :: "(string \<Rightarrow> bool) \<Rightarrow> jsval \<Rightarrow> bool" where
  "email_ok emailRegex v = (case v of VStr s \<Rightarrow> emailRegex s | _ \<Rightarrow> False)"


definition detail_fields :: "response \<Rightarrow> jsval list" where
  "detail_fields r = map (\<lambda>d. get_prop d ''field'') (details_of r)"



definition body_abc_Foo :: jsval where
  "body_abc_Foo = VObj [(''name'', VStr ''abc''), (''email'', VStr ''Foo@BAR.com'')]"

definition body_abc_x :: jsval where
  "body_abc_x = VObj [(''name'', VStr ''abc''), (''email'', VStr ''x'')]"

section \<open>Reading an upstream answer\<close>

text \<open>The schema of one record of \<^verbatim>\<open>results\<close>, as \<^const>\<open>RandomUserApiResponseSchema\<close> has it.\<close>

definition PersonSchema :: "person ZodType" where
  "PersonSchema =
     z_object4
          (''name'', z_object2
             (''first'', z_string [])
             (''last'', z_string [])
             (\<lambda>f l. \<lparr>first = f, last' = l\<rparr>))
          (''location'', z_object3
             (''country'', z_string [])
             (''city'', z_string [])
             (''postcode'', z_union (z_string []) (z_number []))
             (\<lambda>co ci pc. \<lparr>country = co, city = ci, postcode = pc\<rparr>))
          (''login'', z_object1
             (''username'', z_string [])
             (\<lambda>u. \<lparr>username = u\<rparr>))
          (''registered'', z_object1
             (''date'', z_string [])
             (\<lambda>d. \<lparr>date = d\<rparr>))
          (\<lambda>n l lg r. \<lparr>person.name = n, location = l, login = lg, registered = r\<rparr>)"

text \<open>The first element of the \<^verbatim>\<open>results\<close> array of an upstream body, when there is one.\<close>

definition first_result :: "jsval \<Rightarrow> jsval option" where
  "first_result data = (case get_prop data ''results'' of VArr xs \<Rightarrow> index0 xs | _ \<Rightarrow> None)"

text \<open>The JSON value a validated postcode was read from.\<close>

fun postcode_json :: "string + number \<Rightarrow> jsval" where
  "postcode_json (Inl s) = VStr s"
| "postcode_json (Inr x) = VNum x"

text \<open>
  Upstream bodies used as examples: the record of the specification, alone and followed
  by a second record.
\<close>

definition record_ada :: jsval where
  "record_ada =
     VObj [(''name'', VObj [(''first'', VStr ''Ada''), (''last'', VStr ''Lovelace'')]),
           (''location'', VObj [(''country'', VStr ''UK''), (''city'', VStr ''London''),
                                (''postcode'', VNum (Finite 12345))]),
           (''login'', VObj [(''username'', VStr ''ada'')]),
           (''registered'', VObj [(''date'', VStr ''2020-05-01T00:00:00Z'')])]"

definition record_bob :: jsval where
  "record_bob =
     VObj [(''name'', VObj [(''first'', VStr ''Bob''), (''last'', VStr ''Stone'')]),
           (''location'', VObj [(''country'', VStr ''NL''), (''city'', VStr ''Delft''),
                                (''postcode'', VStr ''2611 AB'')]),
           (''login'', VObj [(''username'', VStr ''bob'')]),
           (''registered'', VObj [(''date'', VStr ''2011-11-11T11:11:11.111Z'')])]"

definition upstream_ada :: jsval where
  "upstream_ada = VObj [(''results'', VArr [record_ada])]"

definition upstream_ada_bob :: jsval where
  "upstream_ada_bob = VObj [(''results'', VArr [record_ada, record_bob]), (''info'', VObj [])]"

text \<open>
  Instances of the two runtime parameters for the examples: a printer for the numbers
  that are not integers below \<open>2^53\<close>, which no example has, and a \<^verbatim>\<open>Date.parse\<close> that
  reads no format but the standard one.
\<close>

definition fmt_unused :: "rat \<Rightarrow> string" where
  "fmt_unused q = []"

definition strict_Date_parse :: "string \<Rightarrow> int option" where
  "strict_Date_parse s = None"

text \<open>
  Two properties of a parse result that the combinators preserve: its issues lie below
  the path the schema was applied at and have pairwise different paths; and a failure
  carries at least one issue.
\<close>

definition located :: "key list \<Rightarrow> issue list + 'a \<Rightarrow> bool" where
  "located p r =
     (list_all (\<lambda>i. prefix p (path i)) (issues_of r) \<and> distinct (map path (issues_of r)))"

definition nonempty :: "issue list + 'a \<Rightarrow> bool" where
  "nonempty r = (case r of Inl is \<Rightarrow> is \<noteq> [] | Inr x \<Rightarrow> True)"

text \<open>
  Blocks of issues filed under pairwise different keys below one path: their paths are
  pairwise different as soon as they are so inside each block.
\<close>

definition blocks_ok :: "key list \<Rightarrow> (key \<times> issue list) list \<Rightarrow> bool" where
  "blocks_ok p bs =
     (distinct (map fst bs) \<and>
      list_all (\<lambda>(k, is). distinct (map path is) \<and> list_all (\<lambda>i. prefix (p @ [k]) (path i)) is) bs)"

text \<open>Records that fail validation: a boolean postcode, and a missing last name as well.\<close>

definition record_no_last_bool_postcode :: jsval where
  "record_no_last_bool_postcode =
     VObj [(''name'', VObj [(''first'', VStr ''Ada'')]),
           (''location'', VObj [(''country'', VStr ''UK''), (''city'', VStr ''London''),
                                (''postcode'', VBool True)]),
           (''login'', VObj [(''username'', VStr ''ada'')]),
           (''registered'', VObj [(''date'', VStr ''2020-05-01T00:00:00Z'')])]"

definition record_bool_postcode :: jsval where
  "record_bool_postcode =
     VObj [(''name'', VObj [(''first'', VStr ''Ada''), (''last'', VStr ''Lovelace'')]),
           (''location'', VObj [(''country'', VStr ''UK''), (''city'', VStr ''London''),
                                (''postcode'', VBool True)]),
           (''login'', VObj [(''username'', VStr ''ada'')]),
           (''registered'', VObj [(''date'', VStr ''2020-05-01T00:00:00Z'')])]"

text \<open>An upstream body whose record passes validation with an empty registration date.\<close>

definition upstream_no_date :: jsval where
  "upstream_no_date =
     VObj [(''results'', VArr [
       VObj [(''name'', VObj [(''first'', VStr ''Ada''), (''last'', VStr ''Lovelace'')]),
             (''location'', VObj [(''country'', VStr ''UK''), (''city'', VStr ''London''),
                                  (''postcode'', VNum (Finite 12345))]),
             (''login'', VObj [(''username'', VStr ''ada'')]),
             (''registered'', VObj [(''date'', VStr '''')])]])]"

text \<open>The \<^verbatim>\<open>path\<close> members of the \<^verbatim>\<open>details\<close> of a response.\<close>

definition detail_paths :: "response \<Rightarrow> jsval list" where
  "detail_paths r = map (\<lambda>d. get_prop d ''path'') (details_of r)"

text \<open>
  The fields of an upstream body that deviate from the shape the specification
  requires: an object with \<^verbatim>\<open>results\<close>, an array of records; in a record the objects
  \<^verbatim>\<open>name\<close> (strings \<^verbatim>\<open>first\<close>, \<^verbatim>\<open>last\<close>), \<^verbatim>\<open>location\<close> (strings \<^verbatim>\<open>country\<close>, \<^verbatim>\<open>city\<close>,
  and \<^verbatim>\<open>postcode\<close> a string or a number), \<^verbatim>\<open>login\<close> (string \<^verbatim>\<open>username\<close>) and
  \<^verbatim>\<open>registered\<close> (string \<^verbatim>\<open>date\<close>). A field that is itself of the wrong kind is violated
  as a whole; otherwise the violated fields are those inside it. Each is given by its
  path, in the order of the shape.
\<close>

definition want_string :: "key list \<Rightarrow> jsval \<Rightarrow> key list list" where
  "want_string p v = (case v of VStr s \<Rightarrow> [] | _ \<Rightarrow> [p])"

definition want_string_or_number :: "key list \<Rightarrow> jsval \<Rightarrow> key list list" where
  "want_string_or_number p v = (case v of VStr s \<Rightarrow> [] | VNum x \<Rightarrow> [] | _ \<Rightarrow> [p])"

definition want_object :: "key list \<Rightarrow> jsval \<Rightarrow> key list list \<Rightarrow> key list list" where
  "want_object p v inner = (case v of VObj kvs \<Rightarrow> inner | _ \<Rightarrow> [p])"

definition violated_person :: "key list \<Rightarrow> jsval \<Rightarrow> key list list" where
  "violated_person p v =
     want_object p v
       (want_object (p @ [KStr ''name'']) (get_prop v ''name'')
          (want_string (p @ [KStr ''name'', KStr ''first'']) (get_prop (get_prop v ''name'') ''first'') @
           want_string (p @ [KStr ''name'', KStr ''last'']) (get_prop (get_prop v ''name'') ''last'')) @
        want_object (p @ [KStr ''location'']) (get_prop v ''location'')
          (want_string (p @ [KStr ''location'', KStr ''country''])
             (get_prop (get_prop v ''location'') ''country'') @
           want_string (p @ [KStr ''location'', KStr ''city''])
             (get_prop (get_prop v ''location'') ''city'') @
           want_string_or_number (p @ [KStr ''location'', KStr ''postcode''])
             (get_prop (get_prop v ''location'') ''postcode'')) @
        want_object (p @ [KStr ''login'']) (get_prop v ''login'')
          (want_string (p @ [KStr ''login'', KStr ''username''])
             (get_prop (get_prop v ''login'') ''username'')) @
        want_object (p @ [KStr ''registered'']) (get_prop v ''registered'')
          (want_string (p @ [KStr ''registered'', KStr ''date''])
             (get_prop (get_prop v ''registered'') ''date'')))"

fun violated_records :: "nat \<Rightarrow> jsval list \<Rightarrow> key list list" where
  "violated_records i [] = []"
| "violated_records i (x # xs) =
     violated_person [KStr ''results'', KIdx i] x @ violated_records (Suc i) xs"

definition violated_paths :: "jsval \<Rightarrow> key list list" where
  "violated_paths data =
     want_object [] data
       (case get_prop data ''results'' of
          VArr xs \<Rightarrow> violated_records 0 xs
        | _ \<Rightarrow> [[KStr ''results'']])"

text \<open>No issue of a result has a member \<^verbatim>\<open>path\<close> among its params.\<close>

definition plain :: "issue list + 'a \<Rightarrow> bool" where
  "plain r = list_all (\<lambda>i. map_of (params i) ''path'' = None) (issues_of r)"

text \<open>
  Lower case as a table: the capital letters of Latin-1 and, at the same position, their
  small letters. Every other character is its own lower case.
\<close>

definition capitals :: string where
  "capitals =
     ''ABCDEFGHIJKLMNOPQRSTUVWXYZ'' @
     [CHR 0xC0, CHR 0xC1, CHR 0xC2, CHR 0xC3, CHR 0xC4, CHR 0xC5, CHR 0xC6, CHR 0xC7,
      CHR 0xC8, CHR 0xC9, CHR 0xCA, CHR 0xCB, CHR 0xCC, CHR 0xCD, CHR 0xCE, CHR 0xCF,
      CHR 0xD0, CHR 0xD1, CHR 0xD2, CHR 0xD3, CHR 0xD4, CHR 0xD5, CHR 0xD6,
      CHR 0xD8, CHR 0xD9, CHR 0xDA, CHR 0xDB, CHR 0xDC, CHR 0xDD, CHR 0xDE]"

definition smalls :: string where
  "smalls =
     ''abcdefghijklmnopqrstuvwxyz'' @
     [CHR 0xE0, CHR 0xE1, CHR 0xE2, CHR 0xE3, CHR 0xE4, CHR 0xE5, CHR 0xE6, CHR 0xE7,
      CHR 0xE8, CHR 0xE9, CHR 0xEA, CHR 0xEB, CHR 0xEC, CHR 0xED, CHR 0xEE, CHR 0xEF,
      CHR 0xF0, CHR 0xF1, CHR 0xF2, CHR 0xF3, CHR 0xF4, CHR 0xF5, CHR 0xF6,
      CHR 0xF8, CHR 0xF9, CHR 0xFA, CHR 0xFB, CHR 0xFC, CHR 0xFD, CHR 0xFE]"

definition small_of :: "char \<Rightarrow> char" where
  "small_of c = (case map_of (zip capitals smalls) c of Some l \<Rightarrow> l | None \<Rightarrow> c)"

text \<open>
  What zod's default error map says of an \<^verbatim>\<open>email\<close> that is no string, by the kind of the
  value (\<^verbatim>\<open>undefined\<close> for a missing key); a string goes on to the email check.
\<close>

fun email_type_message :: "jsval \<Rightarrow> string" where
  "email_type_message VUndefined = ''Required''"
| "email_type_message VNull = ''Expected string, received null''"
| "email_type_message (VBool b) = ''Expected string, received boolean''"
| "email_type_message (VNum x) = ''Expected string, received number''"
| "email_type_message (VArr xs) = ''Expected string, received array''"
| "email_type_message (VObj kvs) = ''Expected string, received object''"
| "email_type_message (VStr s) = ''Must be a valid email''"

text \<open>Bodies whose \<^verbatim>\<open>email\<close> is a number, and is missing.\<close>

definition body_abc_42 :: jsval where
  "body_abc_42 = VObj [(''name'', VStr ''abc''), (''email'', VNum (Finite 42))]"

definition body_abc :: jsval where
  "body_abc = VObj [(''name'', VStr ''abc'')]"

section \<open>Validation of a user\<close>

lemma name_field:
  "z_string [StrMin 3 m1, StrMax 12 m2] p v =
     (case v of
        VStr s \<Rightarrow>
          if length s < 3
          then Inl [\<lparr>code = too_small, params = size_params ''minimum'' ''string'' 3,
                     path = p, message = m1\<rparr>]
          else if length s > 12
          then Inl [\<lparr>code = too_big, params = size_params ''maximum'' ''string'' 12,
                     path = p, message = m2\<rparr>]
          else Inr s
      | _ \<Rightarrow> Inl [invalid_type_issue ''string'' v p])"
  by (cases v) (simp_all add: z_string_def)

lemma email_field:
  "z_string [StrEmail re msg, StrToLowerCase] p v =
     (case v of
        VStr s \<Rightarrow>
          if re s then Inr (toLowerCase s)
          else Inl [\<lparr>code = invalid_string, params = [(''validation'', VStr ''email'')],
                     path = p, message = msg\<rparr>]
      | _ \<Rightarrow> Inl [invalid_type_issue ''string'' v p])"
  by (cases v) (simp_all add: z_string_def)

lemma merge2_issues: "issues_of (merge2 a b) = issues_of a @ issues_of b"
  by (cases a; cases b) simp_all

lemma merge2_Inl: "isl a \<or> isl b \<Longrightarrow> merge2 a b = Inl (issues_of a @ issues_of b)"
  by (cases a; cases b) simp_all

lemma UserSchema_obj:
  "UserSchema re [] (VObj kvs) =
     map_sum id (\<lambda>(n, a, e). \<lparr>name = n, age = a, email = e\<rparr>)
       (merge2 (name_result (VObj kvs))
          (merge2 (age_result (VObj kvs)) (email_result re (VObj kvs))))"
  by (simp add: UserSchema_def z_object3_def name_result_def age_result_def email_result_def)

lemma UserSchema_fail:
  assumes "isl (name_result (VObj kvs)) \<or> isl (age_result (VObj kvs)) \<or>
           isl (email_result re (VObj kvs))"
  shows "UserSchema re [] (VObj kvs) =
           Inl (issues_of (name_result (VObj kvs)) @ issues_of (age_result (VObj kvs)) @
                issues_of (email_result re (VObj kvs)))"
proof -
  have "isl (name_result (VObj kvs)) \<or>
        isl (merge2 (age_result (VObj kvs)) (email_result re (VObj kvs)))"
    using assms by (cases "age_result (VObj kvs)"; cases "email_result re (VObj kvs)") auto
  then show ?thesis
    by (simp add: UserSchema_obj merge2_Inl merge2_issues)
qed

lemma UserSchema_ok:
  assumes "name_result (VObj kvs) = Inr n" and "age_result (VObj kvs) = Inr a"
    and "email_result re (VObj kvs) = Inr e"
  shows "UserSchema re [] (VObj kvs) = Inr \<lparr>name = n, age = a, email = e\<rparr>"
  by (simp add: UserSchema_obj assms)

lemma post_users_Inl:
  "UserSchema re [] data = Inl is \<Longrightarrow>
   post_users re data =
     \<lparr>status = 400,
      body = VObj [(''error'', VStr ''Validation failed''),
                   (''details'', VArr (map field_error is))]\<rparr>"
  by (simp add: post_users_def parse_def)

lemma post_users_Inr:
  "UserSchema re [] data = Inr u \<Longrightarrow> post_users re data = \<lparr>status = 201, body = user_json u\<rparr>"
  by (simp add: post_users_def parse_def)

lemma get_prop_obj: "get_prop data k = VStr s \<Longrightarrow> \<exists>kvs. data = VObj kvs"
  by (cases data) simp_all

lemma name_result_short:
  "get_prop data ''name'' = VStr n \<Longrightarrow> length n < 3 \<Longrightarrow>
   name_result data =
     Inl [\<lparr>code = too_small, params = size_params ''minimum'' ''string'' 3,
           path = [KStr ''name''],
           message = ''Name must be at least 3 characters''\<rparr>]"
  by (simp add: name_result_def field_def name_field)

lemma name_result_long:
  "get_prop data ''name'' = VStr n \<Longrightarrow> length n > 12 \<Longrightarrow>
   name_result data =
     Inl [\<lparr>code = too_big, params = size_params ''maximum'' ''string'' 12,
           path = [KStr ''name''],
           message = ''Name must be at most 12 characters''\<rparr>]"
  by (simp add: name_result_def field_def name_field)

text \<open>
  Claim C7. When the \<^verbatim>\<open>name\<close> of the body of \<^verbatim>\<open>POST /users\<close> is a string shorter than 3
  or longer than 12, the answer has status 400 and its \<^verbatim>\<open>details\<close> hold an entry with
  field \<^verbatim>\<open>name\<close> and the message "Name must be at least 3 characters" for a short
  name, "Name must be at most 12 characters" for a long one.
\<close>

theorem post_users_name_length:
  assumes "get_prop req_body ''name'' = VStr n" and "length n < 3 \<or> length n > 12"
  shows "status (post_users emailRegex req_body) = 400 \<and>
         detail ''name'' (if length n < 3 then ''Name must be at least 3 characters''
                          else ''Name must be at most 12 characters'')
           \<in> set (details_of (post_users emailRegex req_body))"
proof -
  obtain kvs where obj: "req_body = VObj kvs"
    using assms(1) get_prop_obj by blast
  let ?msg = "if length n < 3 then ''Name must be at least 3 characters''
              else ''Name must be at most 12 characters''"
  obtain c ps where "name_result req_body =
      Inl [\<lparr>code = c, params = ps, path = [KStr ''name''], message = ?msg\<rparr>]"
    using assms name_result_short name_result_long by (cases "length n < 3") auto
  then have "UserSchema emailRegex [] req_body =
     Inl (\<lparr>code = c, params = ps, path = [KStr ''name''], message = ?msg\<rparr> #
          issues_of (age_result req_body) @ issues_of (email_result emailRegex req_body))"
    using UserSchema_fail [of kvs emailRegex] obj by simp
  from post_users_Inl [OF this] show ?thesis
    by (simp add: details_of_def detail_def field_error_def)
qed

theorem post_users_name_length_witness:
  "get_prop (VObj [(''name'', VStr ''Bartholomew-Xavier''), (''email'', VStr ''bart@example.org'')])
     ''name'' = VStr ''Bartholomew-Xavier'' \<and>
   length ''Bartholomew-Xavier'' > 12 \<and>
   status (post_users zod_emailRegex
     (VObj [(''name'', VStr ''Bartholomew-Xavier''), (''email'', VStr ''bart@example.org'')])) = 400 \<and>
   detail ''name'' ''Name must be at most 12 characters''
     \<in> set (details_of (post_users zod_emailRegex
          (VObj [(''name'', VStr ''Bartholomew-Xavier''), (''email'', VStr ''bart@example.org'')])))"
proof -
  have h1: "get_prop (VObj [(''name'', VStr ''Bartholomew-Xavier''), (''email'', VStr ''bart@example.org'')])
     ''name'' = VStr ''Bartholomew-Xavier''"
    by simp
  have h2: "length ''Bartholomew-Xavier'' < 3 \<or> length ''Bartholomew-Xavier'' > 12"
    by simp
  show ?thesis
    using post_users_name_length [OF h1 h2, of zod_emailRegex] h1 by simp
qed

lemma name_result_cases:
  "(name_ok (get_prop data ''name'') \<and> (\<exists>s. get_prop data ''name'' = VStr s \<and> name_result data = Inr s)) \<or>
   (\<not> name_ok (get_prop data ''name'') \<and> (\<exists>c ps m. name_result data =
        Inl [\<lparr>code = c, params = ps, path = [KStr ''name''], message = m\<rparr>]))"
  by (cases "get_prop data ''name''")
     (auto simp add: name_result_def field_def name_field name_ok_def invalid_type_issue_def)

lemma email_result_cases:
  "(email_ok re (get_prop data ''email'') \<and>
      (\<exists>s. get_prop data ''email'' = VStr s \<and> email_result re data = Inr (toLowerCase s))) \<or>
   (\<not> email_ok re (get_prop data ''email'') \<and>
      (\<exists>c ps m. email_result re data =
         Inl [\<lparr>code = c, params = ps, path = [KStr ''email''], message = m\<rparr>]))"
  by (cases "get_prop data ''email''")
     (auto simp add: email_result_def field_def email_field email_ok_def invalid_type_issue_def)

lemma age_number:
  "z_number [NumInt, NumMin 18 m1, NumMax 100 m2] p (VNum x) =
     (if age_ok (VNum x) then Inr x
      else Inl ((if isInteger x then []
                 else [\<lparr>code = invalid_type,
                        params = [(''expected'', VStr ''integer''), (''received'', VStr ''float'')],
                        path = p, message = ''Expected integer, received float''\<rparr>]) @
                (if num_lt x 18
                 then [\<lparr>code = too_small, params = size_params ''minimum'' ''number'' 18,
                        path = p, message = m1\<rparr>]
                 else []) @
                (if num_gt x 100
                 then [\<lparr>code = too_big, params = size_params ''maximum'' ''number'' 100,
                        path = p, message = m2\<rparr>]
                 else [])))"
  by (cases x) (auto simp add: z_number_def age_ok_def)

lemma age_result_cases:
  "(age_ok (get_prop data ''age'') \<and>
      (get_prop data ''age'' = VUndefined \<and> age_result data = Inr (Some (Finite 28)) \<or>
       (\<exists>x. get_prop data ''age'' = VNum x \<and> age_result data = Inr (Some x)))) \<or>
   (\<not> age_ok (get_prop data ''age'') \<and>
      ((\<exists>i. path i = [KStr ''age''] \<and> age_result data = Inl [i]) \<or>
       (\<exists>i j. path i = [KStr ''age''] \<and> path j = [KStr ''age''] \<and> age_result data = Inl [i, j])))"
proof (cases "get_prop data ''age''")
  case (VNum x)
  then show ?thesis
    by (cases x) (auto simp add: age_result_def field_def z_default_def z_optional_def age_number age_ok_def)
qed (auto simp add: age_result_def field_def z_default_def z_optional_def z_number_def age_ok_def invalid_type_issue_def)



lemma toLowerCase_Foo: "toLowerCase ''Foo@BAR.com'' = ''foo@bar.com''"
  by code_simp

lemma emailRegex_Foo: "zod_emailRegex ''Foo@BAR.com''"
  by code_simp





text \<open>
  Claim C5. When the body of \<^verbatim>\<open>POST /users\<close> has a valid name and a valid email and no
  \<^verbatim>\<open>age\<close>, the answer has status 201 and returns the validated user with age 28;
  when an \<^verbatim>\<open>age\<close> is present, the answer has status 201 exactly when the age is an
  integer from 18 to 100.
\<close>

theorem post_users_default_age:
  assumes "get_prop req_body ''name'' = VStr n" and "3 \<le> length n" and "length n \<le> 12"
    and "get_prop req_body ''email'' = VStr e" and "emailRegex e"
  shows "(get_prop req_body ''age'' = VUndefined \<longrightarrow>
            post_users emailRegex req_body =
              \<lparr>status = 201,
               body = VObj [(''name'', VStr n), (''age'', VNum (Finite 28)),
                            (''email'', VStr (toLowerCase e))]\<rparr>) \<and>
         (get_prop req_body ''age'' \<noteq> VUndefined \<longrightarrow>
            (status (post_users emailRegex req_body) = 201) =
              (\<exists>i::int. 18 \<le> i \<and> i \<le> 100 \<and> get_prop req_body ''age'' = VNum (Finite (of_int i))))"
proof -
  obtain kvs where obj: "req_body = VObj kvs"
    using assms(1) get_prop_obj by blast
  have n: "name_result req_body = Inr n"
    using assms(1-3) name_result_cases [of req_body] by (auto simp add: name_ok_def)
  have e: "email_result emailRegex req_body = Inr (toLowerCase e)"
    using assms(4,5) email_result_cases [of emailRegex req_body] by (auto simp add: email_ok_def)
  have ok: "age_result req_body = Inr a \<Longrightarrow>
     post_users emailRegex req_body =
       \<lparr>status = 201, body = user_json \<lparr>name = n, age = a, email = toLowerCase e\<rparr>\<rparr>" for a
    using UserSchema_ok [of kvs n a emailRegex "toLowerCase e"] n e obj post_users_Inr by simp
  have bad: "isl (age_result req_body) \<Longrightarrow> status (post_users emailRegex req_body) = 400"
    using UserSchema_fail [of kvs emailRegex] obj post_users_Inl [of emailRegex req_body] by simp
  have int_iff: "age_ok (VNum x) = (\<exists>i::int. 18 \<le> i \<and> i \<le> 100 \<and> x = Finite (of_int i))" for x
  proof (cases x)
    case (Finite q)
    show ?thesis
    proof
      assume "age_ok (VNum x)"
      then have "of_int \<lfloor>q\<rfloor> = q" and "18 \<le> q" and "q \<le> 100"
        by (simp_all add: age_ok_def Finite del: of_int_floor_cancel)
      then have "18 \<le> \<lfloor>q\<rfloor>" and "\<lfloor>q\<rfloor> \<le> 100" and "x = Finite (of_int \<lfloor>q\<rfloor>)"
        by (simp_all add: Finite le_floor_iff floor_le_iff del: of_int_floor_cancel)
      then show "\<exists>i::int. 18 \<le> i \<and> i \<le> 100 \<and> x = Finite (of_int i)"
        by blast
    next
      assume "\<exists>i::int. 18 \<le> i \<and> i \<le> 100 \<and> x = Finite (of_int i)"
      then show "age_ok (VNum x)"
        by (auto simp add: age_ok_def)
    qed
  qed (simp_all add: age_ok_def)
  show ?thesis
    using age_result_cases [of req_body] ok bad int_iff
    by (auto simp add: user_json_def age_ok_def)
qed


theorem post_users_default_age_witness:
  "get_prop body_abc_Foo ''name'' = VStr ''abc'' \<and> 3 \<le> length ''abc'' \<and> length ''abc'' \<le> 12 \<and>
   get_prop body_abc_Foo ''email'' = VStr ''Foo@BAR.com'' \<and> zod_emailRegex ''Foo@BAR.com'' \<and>
   get_prop body_abc_Foo ''age'' = VUndefined \<and>
   post_users zod_emailRegex body_abc_Foo =
     \<lparr>status = 201,
      body = VObj [(''name'', VStr ''abc''), (''age'', VNum (Finite 28)),
                   (''email'', VStr ''foo@bar.com'')]\<rparr>"
proof -
  have h1: "get_prop body_abc_Foo ''name'' = VStr ''abc''"
    by (simp add: body_abc_Foo_def)
  have h2: "3 \<le> length ''abc''" and h3: "length ''abc'' \<le> 12"
    by simp_all
  have h4: "get_prop body_abc_Foo ''email'' = VStr ''Foo@BAR.com''"
    by (simp add: body_abc_Foo_def)
  have h6: "get_prop body_abc_Foo ''age'' = VUndefined"
    by (simp add: body_abc_Foo_def)
  show ?thesis
    using post_users_default_age [where emailRegex = zod_emailRegex and e = "''Foo@BAR.com''", OF h1 h2 h3 h4 emailRegex_Foo]
      h1 h4 h6 emailRegex_Foo
    by (simp add: toLowerCase_Foo)
qed

lemma lower_char_small_of: "lower_char c = small_of c"
proof (cases c)
  case (Char b0 b1 b2 b3 b4 b5 b6 b7)
  show ?thesis
    unfolding Char
    by (cases b0; cases b1; cases b2; cases b3; cases b4; cases b5; cases b6; cases b7)
      (simp_all add: lower_char_def small_of_def capitals_def smalls_def char_of_def bit_Suc_0_iff)
qed

lemma toLowerCase_small_of: "toLowerCase s = map small_of s"
  by (simp add: toLowerCase_def lower_char_small_of)


lemma email_result_not_string:
  assumes "\<not> (\<exists>e. get_prop data ''email'' = VStr e)"
  shows "\<exists>ps. email_result re data =
           Inl [\<lparr>code = invalid_type, params = ps, path = [KStr ''email''],
                 message = email_type_message (get_prop data ''email'')\<rparr>]"
  using assms
  by (cases "get_prop data ''email''")
    (simp_all add: email_result_def field_def email_field invalid_type_issue_def)

lemma details_of_fail:
  assumes "req_body = VObj kvs"
    and "isl (name_result req_body) \<or> isl (age_result req_body) \<or> isl (email_result re req_body)"
  shows "status (post_users re req_body) = 400"
    and "details_of (post_users re req_body) =
           map field_error (issues_of (name_result req_body)) @
           map field_error (issues_of (age_result req_body)) @
           map field_error (issues_of (email_result re req_body))"
proof -
  have "UserSchema re [] req_body =
      Inl (issues_of (name_result req_body) @ issues_of (age_result req_body) @
           issues_of (email_result re req_body))"
    using UserSchema_fail [of kvs re] assms by simp
  from post_users_Inl [OF this]
  show "status (post_users re req_body) = 400"
    and "details_of (post_users re req_body) =
           map field_error (issues_of (name_result req_body)) @
           map field_error (issues_of (age_result req_body)) @
           map field_error (issues_of (email_result re req_body))"
    by (simp_all add: details_of_def)
qed

lemma name_entries:
  "detail ''email'' m \<notin> set (map field_error (issues_of (name_result data)))"
  using name_result_cases [of data] by (auto simp add: field_error_def detail_def)

lemma age_entries:
  "detail ''email'' m \<notin> set (map field_error (issues_of (age_result data)))"
  using age_result_cases [of data] by (auto simp add: field_error_def detail_def)

text \<open>
  Claim C6, as amended. When the \<^verbatim>\<open>email\<close> of the body of \<^verbatim>\<open>POST /users\<close> is a string that
  does not match the email pattern, the answer has status 400 and its \<^verbatim>\<open>details\<close> hold
  the entry with field \<^verbatim>\<open>email\<close> and message "Must be a valid email". When the body is
  an object whose \<^verbatim>\<open>email\<close> is missing or no string, the answer has status 400 and the
  entry with field \<^verbatim>\<open>email\<close> carries the type message instead ("Required", or
  "Expected string, received" and the kind of the value), and no entry says "Must be a
  valid email". When the answer has status 201, the returned email is the submitted
  one with every capital letter replaced by its small letter; so \<^verbatim>\<open>Foo@BAR.com\<close> comes
  back as \<^verbatim>\<open>foo@bar.com\<close>.
\<close>

theorem post_users_email:
  "(\<forall>e. get_prop req_body ''email'' = VStr e \<longrightarrow> \<not> emailRegex e \<longrightarrow>
      status (post_users emailRegex req_body) = 400 \<and>
      detail ''email'' ''Must be a valid email'' \<in> set (details_of (post_users emailRegex req_body))) \<and>
   (\<forall>kvs. req_body = VObj kvs \<longrightarrow> \<not> (\<exists>e. get_prop req_body ''email'' = VStr e) \<longrightarrow>
      status (post_users emailRegex req_body) = 400 \<and>
      detail ''email'' (email_type_message (get_prop req_body ''email''))
        \<in> set (details_of (post_users emailRegex req_body)) \<and>
      detail ''email'' ''Must be a valid email''
        \<notin> set (details_of (post_users emailRegex req_body))) \<and>
   (status (post_users emailRegex req_body) = 201 \<longrightarrow>
      (\<exists>e. get_prop req_body ''email'' = VStr e \<and> emailRegex e \<and>
           get_prop (body (post_users emailRegex req_body)) ''email'' = VStr (map small_of e))) \<and>
   map small_of ''Foo@BAR.com'' = ''foo@bar.com''"
proof (intro conjI allI impI)
  fix e
  assume e: "get_prop req_body ''email'' = VStr e" and bad: "\<not> emailRegex e"
  obtain kvs where obj: "req_body = VObj kvs"
    using e get_prop_obj by blast
  have er: "email_result emailRegex req_body =
      Inl [\<lparr>code = invalid_string, params = [(''validation'', VStr ''email'')],
            path = [KStr ''email''], message = ''Must be a valid email''\<rparr>]"
    using e bad by (simp add: email_result_def field_def email_field)
  then have "isl (name_result req_body) \<or> isl (age_result req_body) \<or>
      isl (email_result emailRegex req_body)"
    by simp
  from details_of_fail [OF obj this] er
  show "status (post_users emailRegex req_body) = 400"
    and "detail ''email'' ''Must be a valid email'' \<in> set (details_of (post_users emailRegex req_body))"
    by (simp_all add: detail_def field_error_def)
next
  fix kvs
  assume obj: "req_body = VObj kvs" and ns: "\<not> (\<exists>e. get_prop req_body ''email'' = VStr e)"
  from email_result_not_string [OF ns, of emailRegex] obtain ps where
    er: "email_result emailRegex req_body =
           Inl [\<lparr>code = invalid_type, params = ps, path = [KStr ''email''],
                 message = email_type_message (get_prop req_body ''email'')\<rparr>]"
    by blast
  then have bad: "isl (name_result req_body) \<or> isl (age_result req_body) \<or>
      isl (email_result emailRegex req_body)"
    by simp
  have neq: "email_type_message (get_prop req_body ''email'') \<noteq> ''Must be a valid email''"
    using ns by (cases "get_prop req_body ''email''") simp_all
  from details_of_fail [OF obj bad] er
  show "status (post_users emailRegex req_body) = 400"
    and "detail ''email'' (email_type_message (get_prop req_body ''email''))
        \<in> set (details_of (post_users emailRegex req_body))"
    by (simp_all add: detail_def field_error_def)
  from details_of_fail(2) [OF obj bad] er neq
  show "detail ''email'' ''Must be a valid email''
        \<notin> set (details_of (post_users emailRegex req_body))"
    using name_entries [of "''Must be a valid email''" req_body]
      age_entries [of "''Must be a valid email''" req_body]
    by (simp add: detail_def field_error_def)
next
  assume ok: "status (post_users emailRegex req_body) = 201"
  have "\<exists>kvs. req_body = VObj kvs"
  proof (cases req_body)
    case (VObj kvs)
    then show ?thesis by simp
  qed (use ok in \<open>simp_all add: post_users_def parse_def UserSchema_def z_object3_def\<close>)
  then obtain kvs where obj: "req_body = VObj kvs" ..
  have good: "\<not> (isl (name_result req_body) \<or> isl (age_result req_body) \<or>
           isl (email_result emailRegex req_body))"
    using details_of_fail(1) [OF obj, of emailRegex] ok by auto
  then obtain n a m where r: "name_result req_body = Inr n" "age_result req_body = Inr a"
      "email_result emailRegex req_body = Inr m"
    by (cases "name_result req_body"; cases "age_result req_body";
        cases "email_result emailRegex req_body") auto
  from r(3) obtain e where e: "get_prop req_body ''email'' = VStr e" "emailRegex e" "m = toLowerCase e"
    using email_result_cases [of emailRegex req_body] by (auto simp add: email_ok_def)
  have "post_users emailRegex req_body =
       \<lparr>status = 201, body = user_json \<lparr>name = n, age = a, email = toLowerCase e\<rparr>\<rparr>"
    using UserSchema_ok [of kvs n a emailRegex m] r e obj post_users_Inr by simp
  then show "\<exists>e. get_prop req_body ''email'' = VStr e \<and> emailRegex e \<and>
           get_prop (body (post_users emailRegex req_body)) ''email'' = VStr (map small_of e)"
    using e by (auto simp add: user_json_def toLowerCase_small_of)
next
  show "map small_of ''Foo@BAR.com'' = ''foo@bar.com''"
    by (simp add: small_of_def capitals_def smalls_def)
qed

text \<open>An email without \<^verbatim>\<open>@\<close>, a missing email, and the email of the specification.\<close>

theorem post_users_email_witness:
  "get_prop body_abc_x ''email'' = VStr ''x'' \<and> \<not> zod_emailRegex ''x'' \<and>
   status (post_users zod_emailRegex body_abc_x) = 400 \<and>
   detail ''email'' ''Must be a valid email'' \<in> set (details_of (post_users zod_emailRegex body_abc_x)) \<and>
   get_prop body_abc ''email'' = VUndefined \<and>
   status (post_users zod_emailRegex body_abc) = 400 \<and>
   detail ''email'' ''Required'' \<in> set (details_of (post_users zod_emailRegex body_abc)) \<and>
   status (post_users zod_emailRegex body_abc_Foo) = 201 \<and>
   get_prop body_abc_Foo ''email'' = VStr ''Foo@BAR.com'' \<and>
   get_prop (body (post_users zod_emailRegex body_abc_Foo)) ''email'' = VStr ''foo@bar.com''"
proof -
  have h1: "get_prop body_abc_x ''email'' = VStr ''x''"
    by (simp add: body_abc_x_def)
  have h2: "\<not> zod_emailRegex ''x''"
    by code_simp
  have h3: "status (post_users zod_emailRegex body_abc_Foo) = 201"
    by code_simp
  have h4: "get_prop body_abc_Foo ''email'' = VStr ''Foo@BAR.com''"
    by (simp add: body_abc_Foo_def)
  have h5: "get_prop body_abc ''email'' = VUndefined" and h6: "body_abc = VObj [(''name'', VStr ''abc'')]"
    by (simp_all add: body_abc_def)
  show ?thesis
    using post_users_email [of body_abc_x zod_emailRegex]
      post_users_email [of body_abc zod_emailRegex]
      post_users_email [of body_abc_Foo zod_emailRegex] h1 h2 h3 h4 h5 h6
    by auto
qed

text \<open>
  Claim C6 as stated fails: the number 42 does not satisfy email syntax, and the entry
  for \<^verbatim>\<open>email\<close> says "Expected string, received number", not "Must be a valid email".
\<close>

theorem post_users_email_number:
  "post_users zod_emailRegex body_abc_42 =
     \<lparr>status = 400,
      body = VObj [(''error'', VStr ''Validation failed''),
                   (''details'', VArr [detail ''email'' ''Expected string, received number''])]\<rparr> \<and>
   detail ''email'' ''Must be a valid email'' \<notin> set (details_of (post_users zod_emailRegex body_abc_42))"
  by code_simp


section \<open>Validation of an upstream answer\<close>

lemma Schema_eq:
  "RandomUserApiResponseSchema = z_object1 (''results'', z_array PersonSchema) (\<lambda>rs. \<lparr>results = rs\<rparr>)"
  by (simp add: RandomUserApiResponseSchema_def PersonSchema_def)

lemma z_string_nil: "z_string [] p v = (case v of VStr s \<Rightarrow> Inr s | _ \<Rightarrow> Inl [invalid_type_issue ''string'' v p])"
  by (cases v) (simp_all add: z_string_def)

lemma z_string_nil_Inr: "z_string [] p v = Inr s \<longleftrightarrow> v = VStr s"
  by (cases v) (simp_all add: z_string_def)

lemma z_number_nil_Inr: "z_number [] p v = Inr x \<longleftrightarrow> v = VNum x"
  by (cases v) (simp_all add: z_number_def)

lemma postcode_Inr:
  "z_union (z_string []) (z_number []) p v = Inr u \<longleftrightarrow> v = postcode_json u"
  by (cases v; cases u) (auto simp add: z_union_def z_string_def z_number_def)

lemma merge2_Inr: "merge2 a b = Inr c \<longleftrightarrow> (\<exists>x y. a = Inr x \<and> b = Inr y \<and> c = (x, y))"
  by (cases a; cases b) auto

lemma map_sum_Inr: "map_sum f g r = Inr y \<longleftrightarrow> (\<exists>x. r = Inr x \<and> y = g x)"
  by (cases r) auto

lemma z_object1_Inr:
  "z_object1 (k, t) mk p v = Inr r \<longleftrightarrow>
     (\<exists>kvs a. v = VObj kvs \<and> t (p @ [KStr k]) (get_prop v k) = Inr a \<and> r = mk a)"
  by (cases v) (auto simp add: z_object1_def field_def map_sum_Inr)

lemma z_object2_Inr:
  "z_object2 (k1, t1) (k2, t2) mk p v = Inr r \<longleftrightarrow>
     (\<exists>kvs a b. v = VObj kvs \<and> t1 (p @ [KStr k1]) (get_prop v k1) = Inr a \<and>
        t2 (p @ [KStr k2]) (get_prop v k2) = Inr b \<and> r = mk a b)"
  by (cases v) (auto simp add: z_object2_def field_def map_sum_Inr merge2_Inr)

lemma z_object3_Inr:
  "z_object3 (k1, t1) (k2, t2) (k3, t3) mk p v = Inr r \<longleftrightarrow>
     (\<exists>kvs a b c. v = VObj kvs \<and> t1 (p @ [KStr k1]) (get_prop v k1) = Inr a \<and>
        t2 (p @ [KStr k2]) (get_prop v k2) = Inr b \<and>
        t3 (p @ [KStr k3]) (get_prop v k3) = Inr c \<and> r = mk a b c)"
  by (cases v) (auto simp add: z_object3_def field_def map_sum_Inr merge2_Inr)

lemma z_object4_Inr:
  "z_object4 (k1, t1) (k2, t2) (k3, t3) (k4, t4) mk p v = Inr r \<longleftrightarrow>
     (\<exists>kvs a b c d. v = VObj kvs \<and> t1 (p @ [KStr k1]) (get_prop v k1) = Inr a \<and>
        t2 (p @ [KStr k2]) (get_prop v k2) = Inr b \<and>
        t3 (p @ [KStr k3]) (get_prop v k3) = Inr c \<and>
        t4 (p @ [KStr k4]) (get_prop v k4) = Inr d \<and> r = mk a b c d)"
  by (cases v) (auto simp add: z_object4_def field_def map_sum_Inr merge2_Inr)

lemma PersonSchema_Inr:
  "PersonSchema p x = Inr per \<longleftrightarrow>
     get_prop (get_prop x ''name'') ''first'' = VStr (first (person.name per)) \<and>
     get_prop (get_prop x ''name'') ''last'' = VStr (last' (person.name per)) \<and>
     get_prop (get_prop x ''location'') ''country'' = VStr (country (location per)) \<and>
     get_prop (get_prop x ''location'') ''city'' = VStr (city (location per)) \<and>
     get_prop (get_prop x ''location'') ''postcode'' = postcode_json (postcode (location per)) \<and>
     get_prop (get_prop x ''login'') ''username'' = VStr (username (login per)) \<and>
     get_prop (get_prop x ''registered'') ''date'' = VStr (date (registered per))"
  (is "?L = ?R")
proof
  assume ?L
  then show ?R
    by (auto simp add: PersonSchema_def z_object4_Inr z_object3_Inr z_object2_Inr z_object1_Inr
        z_string_nil_Inr postcode_Inr)
next
  assume r: ?R
  have obj: "\<exists>kvs. v = VObj kvs" if "get_prop v k = VStr s" for v k s
    using that by (cases v) simp_all
  from r obtain k1 k2 k3 k4 where
     "get_prop x ''name'' = VObj k1" "get_prop x ''location'' = VObj k2"
     "get_prop x ''login'' = VObj k3" "get_prop x ''registered'' = VObj k4"
    by (meson obj)
  moreover from this obtain k0 where "x = VObj k0"
    by (cases x) simp_all
  ultimately show ?L
    using r
    by (cases per; cases "person.name per"; cases "location per"; cases "login per"; cases "registered per")
      (simp add: PersonSchema_def z_object4_Inr z_object3_Inr z_object2_Inr z_object1_Inr
        z_string_nil_Inr postcode_Inr)
qed


lemma mergeArray_Cons_Inr:
  "mergeArray (r # rs) = Inr ys \<longleftrightarrow> (\<exists>y ys'. r = Inr y \<and> mergeArray rs = Inr ys' \<and> ys = y # ys')"
  by (auto simp add: map_sum_Inr merge2_Inr)

lemma z_array_Inr:
  assumes "z_array item p v = Inr ys"
  shows "\<exists>xs. v = VArr xs \<and>
           (case xs of [] \<Rightarrow> ys = []
            | x # xs' \<Rightarrow> \<exists>y ys'. ys = y # ys' \<and> item (p @ [KIdx 0]) x = Inr y)"
proof (cases v)
  case (VArr xs)
  then have "mergeArray (parse_items item p 0 xs) = Inr ys"
    using assms by (simp add: z_array_def)
  then show ?thesis
    using VArr by (cases xs) (auto simp add: mergeArray_Cons_Inr simp del: mergeArray.simps(2))
qed (use assms in \<open>simp_all add: z_array_def\<close>)

lemma Schema_Inr:
  assumes "RandomUserApiResponseSchema [] data = Inr v"
  shows "first_result data = None \<and> index0 (results v) = None \<or>
         (\<exists>x p. first_result data = Some x \<and> index0 (results v) = Some p \<and>
                PersonSchema [KStr ''results'', KIdx 0] x = Inr p)"
proof -
  from assms obtain rs
    where rs: "z_array PersonSchema [KStr ''results''] (get_prop data ''results'') = Inr rs"
      and v: "v = \<lparr>results = rs\<rparr>"
    by (auto simp add: Schema_eq z_object1_Inr)
  from z_array_Inr [OF rs] obtain xs where xs: "get_prop data ''results'' = VArr xs"
    and i: "case xs of [] \<Rightarrow> rs = []
            | x # xs' \<Rightarrow> \<exists>y ys'. rs = y # ys' \<and> PersonSchema ([KStr ''results''] @ [KIdx 0]) x = Inr y"
    by blast
  show ?thesis
    using i by (cases xs) (auto simp add: v xs first_result_def)
qed

lemma fetch_person_Inr:
  assumes "parse RandomUserApiResponseSchema data = Inr v"
  shows "fetch_person (Json data) = Inr None \<and> first_result data = None \<or>
         (\<exists>x p. fetch_person (Json data) = Inr (Some p) \<and> first_result data = Some x \<and>
                PersonSchema [KStr ''results'', KIdx 0] x = Inr p)"
proof -
  from assms have "RandomUserApiResponseSchema [] data = Inr v"
    by (simp add: parse_def split: sum.splits)
  from Schema_Inr [OF this] assms show ?thesis
    by (auto simp add: fetch_person_def)
qed

lemma Schema_no_results:
  assumes "get_prop data ''results'' = VUndefined"
  shows "\<exists>i. parse RandomUserApiResponseSchema data = Inl (ZodError [i])"
proof (cases data)
  case (VObj kvs)
  then show ?thesis
    using assms
    by (simp add: parse_def RandomUserApiResponseSchema_def z_object1_def field_def z_array_def)
qed (simp_all add: parse_def RandomUserApiResponseSchema_def z_object1_def)

lemma show_12345: "show_int 12345 = ''12345''"
  by (simp add: show_int_def show_nat.simps digit_char_def)

lemma parse_ada: "\<exists>v. parse RandomUserApiResponseSchema upstream_ada = Inr v"
  by (simp add: parse_def RandomUserApiResponseSchema_def upstream_ada_def record_ada_def
      z_object1_def z_object2_def z_object3_def z_object4_def z_array_def z_string_def z_union_def
      z_number_def field_def)

lemma parse_ada_bob: "\<exists>v. parse RandomUserApiResponseSchema upstream_ada_bob = Inr v"
  by (simp add: parse_def RandomUserApiResponseSchema_def upstream_ada_bob_def record_ada_def
      record_bob_def z_object1_def z_object2_def z_object3_def z_object4_def z_array_def
      z_string_def z_union_def z_number_def field_def)

text \<open>
  Claim C2. The upstream body \<^verbatim>\<open>{results: []}\<close> passes validation, and each of the three
  random routes then answers 500 with the generic body of the route, which has no
  \<^verbatim>\<open>details\<close>: \<^verbatim>\<open>results[0]\<close> is \<^verbatim>\<open>undefined\<close> and reading its property throws.
\<close>

theorem empty_results:
  "parse RandomUserApiResponseSchema (VObj [(''results'', VArr [])]) = Inr \<lparr>results = []\<rparr> \<and>
   random_person (Json (VObj [(''results'', VArr [])])) =
     \<lparr>status = 500, body = VObj [(''error'', VStr ''Failed to fetch random person'')]\<rparr> \<and>
   random_address fmt (Json (VObj [(''results'', VArr [])])) =
     \<lparr>status = 500, body = VObj [(''error'', VStr ''Failed to fetch random address'')]\<rparr> \<and>
   random_login legacy (Json (VObj [(''results'', VArr [])])) =
     \<lparr>status = 500, body = VObj [(''error'', VStr ''Failed to fetch random login'')]\<rparr>"
  by (simp add: random_person_def random_address_def random_login_def fetch_person_def parse_def
      RandomUserApiResponseSchema_def z_object1_def field_def z_array_def random_catch_def)

text \<open>
  Claim C9. When the upstream body has no \<^verbatim>\<open>results\<close> (an object without that key, or
  a JSON value that is no object), each of the three random routes answers 500 with
  the error "Invalid response from RandomUser API" and the one issue as details.
\<close>

theorem missing_results:
  assumes "get_prop data ''results'' = VUndefined"
  shows "\<exists>i. random_person (Json data) =
           \<lparr>status = 500,
            body = VObj [(''error'', VStr ''Invalid response from RandomUser API''),
                         (''details'', VArr [issue_json i])]\<rparr> \<and>
         random_address fmt (Json data) = random_person (Json data) \<and>
         random_login legacy (Json data) = random_person (Json data)"
proof -
  from Schema_no_results [OF assms] obtain i where
    "parse RandomUserApiResponseSchema data = Inl (ZodError [i])" ..
  then have "random_person (Json data) =
           \<lparr>status = 500,
            body = VObj [(''error'', VStr ''Invalid response from RandomUser API''),
                         (''details'', VArr [issue_json i])]\<rparr> \<and>
         random_address fmt (Json data) = random_person (Json data) \<and>
         random_login legacy (Json data) = random_person (Json data)"
    by (simp add: random_person_def random_address_def random_login_def fetch_person_def
        random_catch_def)
  then show ?thesis ..
qed


theorem missing_results_witness:
  "get_prop (VObj [(''info'', VObj [])]) ''results'' = VUndefined \<and>
   random_person (Json (VObj [(''info'', VObj [])])) =
     \<lparr>status = 500,
      body = VObj [(''error'', VStr ''Invalid response from RandomUser API''),
                   (''details'', VArr [VObj [(''code'', VStr ''invalid_type''),
                                             (''expected'', VStr ''array''),
                                             (''received'', VStr ''undefined''),
                                             (''path'', VArr [VStr ''results'']),
                                             (''message'', VStr ''Required'')]])]\<rparr> \<and>
   random_address fmt_unused (Json (VObj [(''info'', VObj [])])) =
     random_person (Json (VObj [(''info'', VObj [])])) \<and>
   random_login strict_Date_parse (Json (VObj [(''info'', VObj [])])) =
     random_person (Json (VObj [(''info'', VObj [])]))"
proof -
  have h: "get_prop (VObj [(''info'', VObj [])]) ''results'' = VUndefined"
    by simp
  have r: "random_person (Json (VObj [(''info'', VObj [])])) =
     \<lparr>status = 500,
      body = VObj [(''error'', VStr ''Invalid response from RandomUser API''),
                   (''details'', VArr [VObj [(''code'', VStr ''invalid_type''),
                                             (''expected'', VStr ''array''),
                                             (''received'', VStr ''undefined''),
                                             (''path'', VArr [VStr ''results'']),
                                             (''message'', VStr ''Required'')]])]\<rparr>"
    by code_simp
  show ?thesis
    using missing_results [OF h, of fmt_unused strict_Date_parse] h r by auto
qed

text \<open>
  Claim C8. For an upstream body that passes validation and has a first record, the
  postcode of that record is a string or a number, and \<^verbatim>\<open>GET /random-address\<close> answers
  with the city of the record and the postcode as a string: a string as it is, a
  number as \<^verbatim>\<open>String\<close> prints it. The number 12345 prints as "12345".
\<close>

theorem random_address_postcode:
  assumes "parse RandomUserApiResponseSchema data = Inr v" and "first_result data = Some x"
  shows "(\<exists>c pc. get_prop (get_prop x ''location'') ''city'' = VStr c \<and>
            get_prop (get_prop x ''location'') ''postcode'' = postcode_json pc \<and>
            random_address fmt (Json data) =
              \<lparr>status = 200,
               body = VObj [(''city'', VStr c),
                            (''postcode'', VStr (case pc of Inl s \<Rightarrow> s
                                                 | Inr n \<Rightarrow> Number_toString fmt n))]\<rparr>) \<and>
         Number_toString fmt (Finite 12345) = ''12345''"
proof
  from fetch_person_Inr [OF assms(1)] assms(2) obtain p
    where p: "fetch_person (Json data) = Inr (Some p)"
      and x: "PersonSchema [KStr ''results'', KIdx 0] x = Inr p"
    by auto
  from x have "get_prop (get_prop x ''location'') ''city'' = VStr (city (location p))"
    and "get_prop (get_prop x ''location'') ''postcode'' = postcode_json (postcode (location p))"
    by (simp_all add: PersonSchema_Inr)
  moreover have "random_address fmt (Json data) =
      \<lparr>status = 200,
       body = VObj [(''city'', VStr (city (location p))),
                    (''postcode'', VStr (case postcode (location p) of Inl s \<Rightarrow> s
                                         | Inr n \<Rightarrow> Number_toString fmt n))]\<rparr>"
    by (cases "postcode (location p)") (simp_all add: random_address_def p)
  ultimately show "\<exists>c pc. get_prop (get_prop x ''location'') ''city'' = VStr c \<and>
            get_prop (get_prop x ''location'') ''postcode'' = postcode_json pc \<and>
            random_address fmt (Json data) =
              \<lparr>status = 200,
               body = VObj [(''city'', VStr c),
                            (''postcode'', VStr (case pc of Inl s \<Rightarrow> s
                                                 | Inr n \<Rightarrow> Number_toString fmt n))]\<rparr>"
    by blast
next
  have "\<lfloor>12345::rat\<rfloor> = 12345"
    by simp
  then show "Number_toString fmt (Finite 12345) = ''12345''"
    by (simp add: Number_toString_def show_12345)
qed

theorem random_address_postcode_witness:
  "first_result upstream_ada = Some record_ada \<and>
   get_prop (get_prop record_ada ''location'') ''postcode'' = VNum (Finite 12345) \<and>
   random_address fmt_unused (Json upstream_ada) =
     \<lparr>status = 200, body = VObj [(''city'', VStr ''London''), (''postcode'', VStr ''12345'')]\<rparr>"
proof -
  obtain v where h1: "parse RandomUserApiResponseSchema upstream_ada = Inr v"
    using parse_ada ..
  have h2: "first_result upstream_ada = Some record_ada"
    by (simp add: first_result_def upstream_ada_def)
  have c: "get_prop (get_prop record_ada ''location'') ''city'' = VStr ''London''"
    and pc: "get_prop (get_prop record_ada ''location'') ''postcode'' = VNum (Finite 12345)"
    by (simp_all add: record_ada_def)
  from random_address_postcode [OF h1 h2, of fmt_unused] obtain c' pc'
    where "VStr ''London'' = VStr c'" and "VNum (Finite 12345) = postcode_json pc'"
      and r: "random_address fmt_unused (Json upstream_ada) =
              \<lparr>status = 200,
               body = VObj [(''city'', VStr c'),
                            (''postcode'', VStr (case pc' of Inl s \<Rightarrow> s
                                                 | Inr n \<Rightarrow> Number_toString fmt_unused n))]\<rparr>"
      and n: "Number_toString fmt_unused (Finite 12345) = ''12345''"
    unfolding c pc by blast
  then have "c' = ''London''" and "pc' = Inr (Finite 12345)"
    by (simp, cases pc') simp_all
  with r n h2 pc show ?thesis
    by simp
qed

text \<open>
  Claim C10. Two upstream bodies that both pass validation and have the same first
  record get the same answer from each of the three random routes, whatever follows
  the first record.
\<close>

theorem same_first_same_response:
  assumes "parse RandomUserApiResponseSchema data1 = Inr v1"
    and "parse RandomUserApiResponseSchema data2 = Inr v2"
    and "first_result data1 = first_result data2"
  shows "random_person (Json data1) = random_person (Json data2) \<and>
         random_address fmt (Json data1) = random_address fmt (Json data2) \<and>
         random_login legacy (Json data1) = random_login legacy (Json data2)"
proof -
  have "fetch_person (Json data1) = fetch_person (Json data2)"
    using fetch_person_Inr [OF assms(1)] fetch_person_Inr [OF assms(2)] assms(3) by auto
  then show ?thesis
    by (simp add: random_person_def random_address_def random_login_def)
qed

theorem same_first_same_response_witness:
  "first_result upstream_ada = first_result upstream_ada_bob \<and>
   upstream_ada \<noteq> upstream_ada_bob \<and>
   random_person (Json upstream_ada) = random_person (Json upstream_ada_bob) \<and>
   random_address fmt_unused (Json upstream_ada) = random_address fmt_unused (Json upstream_ada_bob) \<and>
   random_login strict_Date_parse (Json upstream_ada) =
     random_login strict_Date_parse (Json upstream_ada_bob) \<and>
   status (random_person (Json upstream_ada_bob)) = 200"
proof -
  obtain v1 where h1: "parse RandomUserApiResponseSchema upstream_ada = Inr v1"
    using parse_ada ..
  obtain v2 where h2: "parse RandomUserApiResponseSchema upstream_ada_bob = Inr v2"
    using parse_ada_bob ..
  have h3: "first_result upstream_ada = first_result upstream_ada_bob"
    by (simp add: first_result_def upstream_ada_def upstream_ada_bob_def)
  have "upstream_ada \<noteq> upstream_ada_bob"
    by (simp add: upstream_ada_def upstream_ada_bob_def)
  moreover have "status (random_person (Json upstream_ada_bob)) = 200"
    by code_simp
  ultimately show ?thesis
    using same_first_same_response [OF h1 h2 h3, of fmt_unused strict_Date_parse] h3 by simp
qed


section \<open>The issues of an upstream answer\<close>

lemma issues_map_sum [simp]: "issues_of (map_sum id f r) = issues_of r"
  by (cases r) simp_all

lemma located_Inr [simp]: "located p (Inr x)"
  by (simp add: located_def)

lemma located_single: "path i = p \<Longrightarrow> located p (Inl [i])"
  by (simp add: located_def)

lemma path_invalid_type [simp]: "path (invalid_type_issue e v p) = p"
  by (simp add: invalid_type_issue_def)

lemma located_string: "located p (z_string [] p v)"
  by (cases v) (simp_all add: z_string_def located_single)

lemma located_number: "located p (z_number [] p v)"
  by (cases v) (simp_all add: z_number_def located_single)

lemma located_union: "located p (z_union a b p v)"
  by (simp add: z_union_def located_single split: sum.splits)

lemma located_weaken: "located (p @ q) r \<Longrightarrow> located p r"
  by (auto simp add: located_def list_all_iff intro: append_prefixD)

lemma prefix_snoc_neq:
  assumes "prefix (p @ [a]) x" and "prefix (p @ [b]) y" and "a \<noteq> b"
  shows "x \<noteq> y"
proof
  assume "x = y"
  with assms obtain u w where "p @ [a] @ u = p @ [b] @ w"
    by (auto simp add: prefix_def)
  then show False
    using assms(3) by simp
qed

lemma blocks_distinct:
  assumes "blocks_ok p bs"
  shows "distinct (map path (concat (map snd bs))) \<and>
         list_all (\<lambda>i. \<exists>k \<in> set (map fst bs). prefix (p @ [k]) (path i)) (concat (map snd bs))"
  using assms
proof (induction bs)
  case Nil
  then show ?case by simp
next
  case (Cons b bs)
  obtain k "is" where b: "b = (k, is)"
    by (cases b)
  from Cons.prems have ok: "blocks_ok p bs" and k: "k \<notin> set (map fst bs)"
      and d: "distinct (map path is)" and pre: "list_all (\<lambda>i. prefix (p @ [k]) (path i)) is"
    by (simp_all add: blocks_ok_def b)
  from Cons.IH [OF ok] have d': "distinct (map path (concat (map snd bs)))"
    and pre': "list_all (\<lambda>i. \<exists>k \<in> set (map fst bs). prefix (p @ [k]) (path i)) (concat (map snd bs))"
    by simp_all
  have "path i \<noteq> path j" if "i \<in> set is" and "j \<in> set (concat (map snd bs))" for i j
  proof -
    from pre' have "\<forall>j \<in> set (concat (map snd bs)). \<exists>k' \<in> set (map fst bs). prefix (p @ [k']) (path j)"
      by (simp only: list_all_iff)
    with that(2) obtain k' where "k' \<in> set (map fst bs)" and "prefix (p @ [k']) (path j)"
      by blast
    moreover from that(1) pre have "prefix (p @ [k]) (path i)"
      by (simp add: list_all_iff)
    ultimately show ?thesis
      using k prefix_snoc_neq [of p k "path i" k' "path j"] by auto
  qed
  then have "distinct (map path (is @ concat (map snd bs)))"
    using d d' by auto
  moreover have "list_all (\<lambda>i. \<exists>k \<in> set (map fst (b # bs)). prefix (p @ [k]) (path i))
      (is @ concat (map snd bs))"
    using pre pre' by (auto simp add: list_all_iff b)
  ultimately show ?case
    by (simp add: b)
qed

lemma blocks_located:
  assumes "blocks_ok p bs" and "issues_of r = concat (map snd bs)"
  shows "located p r"
proof -
  from blocks_distinct [OF assms(1)]
  have "distinct (map path (issues_of r))"
    and "list_all (\<lambda>i. \<exists>k \<in> set (map fst bs). prefix (p @ [k]) (path i)) (issues_of r)"
    by (simp_all add: assms(2))
  then show ?thesis
    by (auto simp add: located_def list_all_iff intro: append_prefixD)
qed

lemma block_field:
  assumes "\<And>q v. located q (t q v)"
  shows "distinct (map path (issues_of (field (k, t) p v))) \<and>
         list_all (\<lambda>i. prefix (p @ [KStr k]) (path i)) (issues_of (field (k, t) p v))"
  using assms [of "p @ [KStr k]" "get_prop v k"] by (simp add: field_def located_def)

lemma located_object1:
  assumes "\<And>q v. located q (t1 q v)"
  shows "located p (z_object1 (k1, t1) mk p v)"
proof (cases v)
  case (VObj kvs)
  have "blocks_ok p [(KStr k1, issues_of (field (k1, t1) p v))]"
    using block_field [where t = t1 and k = k1 and p = p and v = v, OF assms] by (simp add: blocks_ok_def)
  then show ?thesis
    by (rule blocks_located) (simp add: z_object1_def VObj)
qed (simp_all add: z_object1_def located_single)

lemma located_object2:
  assumes "\<And>q v. located q (t1 q v)" and "\<And>q v. located q (t2 q v)" and "distinct [k1, k2]"
  shows "located p (z_object2 (k1, t1) (k2, t2) mk p v)"
proof (cases v)
  case (VObj kvs)
  have "blocks_ok p [(KStr k1, issues_of (field (k1, t1) p v)), (KStr k2, issues_of (field (k2, t2) p v))]"
    using block_field [where t = t1 and k = k1 and p = p and v = v, OF assms(1)] block_field [where t = t2 and k = k2 and p = p and v = v, OF assms(2)] assms(3)
    by (simp add: blocks_ok_def)
  then show ?thesis
    by (rule blocks_located) (simp add: z_object2_def VObj merge2_issues)
qed (simp_all add: z_object2_def located_single)

lemma located_object3:
  assumes "\<And>q v. located q (t1 q v)" and "\<And>q v. located q (t2 q v)"
    and "\<And>q v. located q (t3 q v)" and "distinct [k1, k2, k3]"
  shows "located p (z_object3 (k1, t1) (k2, t2) (k3, t3) mk p v)"
proof (cases v)
  case (VObj kvs)
  have "blocks_ok p [(KStr k1, issues_of (field (k1, t1) p v)), (KStr k2, issues_of (field (k2, t2) p v)),
      (KStr k3, issues_of (field (k3, t3) p v))]"
    using block_field [where t = t1 and k = k1 and p = p and v = v, OF assms(1)] block_field [where t = t2 and k = k2 and p = p and v = v, OF assms(2)]
      block_field [where t = t3 and k = k3 and p = p and v = v, OF assms(3)] assms(4)
    by (simp add: blocks_ok_def)
  then show ?thesis
    by (rule blocks_located) (simp add: z_object3_def VObj merge2_issues)
qed (simp_all add: z_object3_def located_single)

lemma located_object4:
  assumes "\<And>q v. located q (t1 q v)" and "\<And>q v. located q (t2 q v)"
    and "\<And>q v. located q (t3 q v)" and "\<And>q v. located q (t4 q v)" and "distinct [k1, k2, k3, k4]"
  shows "located p (z_object4 (k1, t1) (k2, t2) (k3, t3) (k4, t4) mk p v)"
proof (cases v)
  case (VObj kvs)
  have "blocks_ok p [(KStr k1, issues_of (field (k1, t1) p v)), (KStr k2, issues_of (field (k2, t2) p v)),
      (KStr k3, issues_of (field (k3, t3) p v)), (KStr k4, issues_of (field (k4, t4) p v))]"
    using block_field [where t = t1 and k = k1 and p = p and v = v, OF assms(1)] block_field [where t = t2 and k = k2 and p = p and v = v, OF assms(2)]
      block_field [where t = t3 and k = k3 and p = p and v = v, OF assms(3)] block_field [where t = t4 and k = k4 and p = p and v = v, OF assms(4)] assms(5)
    by (simp add: blocks_ok_def)
  then show ?thesis
    by (rule blocks_located) (simp add: z_object4_def VObj merge2_issues)
qed (simp_all add: z_object4_def located_single)

lemma mergeArray_issues: "issues_of (mergeArray rs) = concat (map issues_of rs)"
  by (induction rs) (simp_all add: merge2_issues)

lemma parse_items_blocks:
  assumes "\<And>q v. located q (item q v)"
  shows "\<exists>bs. blocks_ok p bs \<and> list_all (\<lambda>(k, is). \<exists>j \<ge> i. k = KIdx j) bs \<and>
           concat (map issues_of (parse_items item p i xs)) = concat (map snd bs)"
proof (induction xs arbitrary: i)
  case Nil
  have "blocks_ok p [] \<and> list_all (\<lambda>(k, is). \<exists>j \<ge> i. k = KIdx j) [] \<and>
        concat (map issues_of (parse_items item p i [])) = concat (map snd [])"
    by (simp add: blocks_ok_def)
  then show ?case by blast
next
  case (Cons x xs)
  from Cons.IH [of "Suc i"] obtain bs where bs: "blocks_ok p bs"
      and later: "list_all (\<lambda>(k, is). \<exists>j \<ge> Suc i. k = KIdx j) bs"
      and eq: "concat (map issues_of (parse_items item p (Suc i) xs)) = concat (map snd bs)"
    by blast
  let ?b = "(KIdx i, issues_of (item (p @ [KIdx i]) x))"
  have "KIdx i \<notin> set (map fst bs)"
    using later by (auto simp add: list_all_iff)
  then have "blocks_ok p (?b # bs)"
    using bs assms [of "p @ [KIdx i]" x] by (simp add: blocks_ok_def located_def)
  moreover have "list_all (\<lambda>(k, is). \<exists>j \<ge> i. k = KIdx j) (?b # bs)"
    using later by (auto simp add: list_all_iff intro: Suc_leD)
  moreover have "concat (map issues_of (parse_items item p i (x # xs))) = concat (map snd (?b # bs))"
    by (simp add: eq)
  ultimately show ?case by blast
qed

lemma located_array:
  assumes "\<And>q v. located q (item q v)"
  shows "located p (z_array item p v)"
proof (cases v)
  case (VArr xs)
  from parse_items_blocks [where item = item and p = p and i = 0 and xs = xs, OF assms] obtain bs where "blocks_ok p bs"
    and "concat (map issues_of (parse_items item p 0 xs)) = concat (map snd bs)"
    by blast
  then show ?thesis
    by (intro blocks_located [of p bs]) (simp_all add: z_array_def VArr mergeArray_issues)
qed (simp_all add: z_array_def located_single)

lemma located_Schema: "located p (RandomUserApiResponseSchema p data)"
  unfolding RandomUserApiResponseSchema_def
  by (intro located_object1 located_array located_object4 located_object2 located_object3
      located_string located_union) simp_all


lemma nonempty_simps [simp]: "nonempty (Inl (i # is))" "nonempty (Inr x)"
  by (simp_all add: nonempty_def)

lemma nonempty_string: "nonempty (z_string [] p v)"
  by (cases v) (simp_all add: z_string_def)

lemma nonempty_union: "nonempty (z_union a b p v)"
  by (simp add: z_union_def split: sum.splits)

lemma nonempty_map_sum: "nonempty r \<Longrightarrow> nonempty (map_sum id f r)"
  by (cases r) (simp_all add: nonempty_def)

lemma nonempty_merge2: "nonempty a \<Longrightarrow> nonempty b \<Longrightarrow> nonempty (merge2 a b)"
  by (cases a; cases b) (simp_all add: nonempty_def)

lemma nonempty_field: "(\<And>q v. nonempty (t q v)) \<Longrightarrow> nonempty (field (k, t) p v)"
  by (simp add: field_def)

lemma nonempty_object1:
  "(\<And>q v. nonempty (t1 q v)) \<Longrightarrow> nonempty (z_object1 (k1, t1) mk p v)"
  by (cases v) (simp_all add: z_object1_def nonempty_map_sum nonempty_field)

lemma nonempty_object2:
  "(\<And>q v. nonempty (t1 q v)) \<Longrightarrow> (\<And>q v. nonempty (t2 q v)) \<Longrightarrow>
   nonempty (z_object2 (k1, t1) (k2, t2) mk p v)"
  by (cases v) (simp_all add: z_object2_def nonempty_map_sum nonempty_merge2 nonempty_field)

lemma nonempty_object3:
  "(\<And>q v. nonempty (t1 q v)) \<Longrightarrow> (\<And>q v. nonempty (t2 q v)) \<Longrightarrow>
   (\<And>q v. nonempty (t3 q v)) \<Longrightarrow> nonempty (z_object3 (k1, t1) (k2, t2) (k3, t3) mk p v)"
  by (cases v) (simp_all add: z_object3_def nonempty_map_sum nonempty_merge2 nonempty_field)

lemma nonempty_object4:
  "(\<And>q v. nonempty (t1 q v)) \<Longrightarrow> (\<And>q v. nonempty (t2 q v)) \<Longrightarrow>
   (\<And>q v. nonempty (t3 q v)) \<Longrightarrow> (\<And>q v. nonempty (t4 q v)) \<Longrightarrow>
   nonempty (z_object4 (k1, t1) (k2, t2) (k3, t3) (k4, t4) mk p v)"
  by (cases v) (simp_all add: z_object4_def nonempty_map_sum nonempty_merge2 nonempty_field)

lemma nonempty_items:
  assumes "\<And>q v. nonempty (item q v)"
  shows "nonempty (mergeArray (parse_items item p i xs))"
  by (induction xs arbitrary: i) (simp_all add: nonempty_map_sum nonempty_merge2 assms)

lemma nonempty_array: "(\<And>q v. nonempty (item q v)) \<Longrightarrow> nonempty (z_array item p v)"
  by (cases v) (simp_all add: z_array_def nonempty_items)

lemma nonempty_Schema: "nonempty (RandomUserApiResponseSchema p data)"
  unfolding RandomUserApiResponseSchema_def
  by (intro nonempty_object1 nonempty_array nonempty_object4 nonempty_object2 nonempty_object3
      nonempty_string nonempty_union)

lemma paths_string: "map path (issues_of (z_string [] p v)) = want_string p v"
  by (cases v) (simp_all add: z_string_def want_string_def)

lemma paths_postcode:
  "map path (issues_of (z_union (z_string []) (z_number []) p v)) = want_string_or_number p v"
  by (cases v) (simp_all add: z_union_def z_string_def z_number_def want_string_or_number_def)

lemma paths_object1:
  "map path (issues_of (z_object1 (k1, t1) mk p v)) =
     want_object p v (map path (issues_of (t1 (p @ [KStr k1]) (get_prop v k1))))"
  by (cases v) (simp_all add: z_object1_def want_object_def field_def)

lemma paths_object2:
  "map path (issues_of (z_object2 (k1, t1) (k2, t2) mk p v)) =
     want_object p v
       (map path (issues_of (t1 (p @ [KStr k1]) (get_prop v k1))) @
        map path (issues_of (t2 (p @ [KStr k2]) (get_prop v k2))))"
  by (cases v) (simp_all add: z_object2_def want_object_def field_def merge2_issues)

lemma paths_object3:
  "map path (issues_of (z_object3 (k1, t1) (k2, t2) (k3, t3) mk p v)) =
     want_object p v
       (map path (issues_of (t1 (p @ [KStr k1]) (get_prop v k1))) @
        map path (issues_of (t2 (p @ [KStr k2]) (get_prop v k2))) @
        map path (issues_of (t3 (p @ [KStr k3]) (get_prop v k3))))"
  by (cases v) (simp_all add: z_object3_def want_object_def field_def merge2_issues)

lemma paths_object4:
  "map path (issues_of (z_object4 (k1, t1) (k2, t2) (k3, t3) (k4, t4) mk p v)) =
     want_object p v
       (map path (issues_of (t1 (p @ [KStr k1]) (get_prop v k1))) @
        map path (issues_of (t2 (p @ [KStr k2]) (get_prop v k2))) @
        map path (issues_of (t3 (p @ [KStr k3]) (get_prop v k3))) @
        map path (issues_of (t4 (p @ [KStr k4]) (get_prop v k4))))"
  by (cases v) (simp_all add: z_object4_def want_object_def field_def merge2_issues)

lemma paths_person: "map path (issues_of (PersonSchema p v)) = violated_person p v"
  by (simp add: PersonSchema_def violated_person_def paths_object4 paths_object3 paths_object2
      paths_object1 paths_string paths_postcode)

lemma paths_items:
  "map path (issues_of (mergeArray (parse_items PersonSchema [KStr ''results''] i xs))) =
     violated_records i xs"
  by (induction xs arbitrary: i) (simp_all add: merge2_issues paths_person)

lemma paths_Schema: "map path (issues_of (RandomUserApiResponseSchema [] data)) = violated_paths data"
proof (cases "get_prop data ''results''")
  case (VArr xs)
  then show ?thesis
    by (simp add: Schema_eq paths_object1 violated_paths_def z_array_def paths_items)
qed (simp_all add: Schema_eq paths_object1 violated_paths_def z_array_def)


lemma plain_Inr [simp]: "plain (Inr x)"
  by (simp add: plain_def)

lemma plain_string: "plain (z_string [] p v)"
  by (cases v) (simp_all add: z_string_def plain_def invalid_type_issue_def)

lemma plain_union: "plain (z_union a b p v)"
  by (simp add: z_union_def plain_def split: sum.splits)

lemma plain_map_sum: "plain r \<Longrightarrow> plain (map_sum id f r)"
  by (simp add: plain_def)

lemma plain_merge2: "plain a \<Longrightarrow> plain b \<Longrightarrow> plain (merge2 a b)"
  by (simp add: plain_def merge2_issues)

lemma plain_field: "(\<And>q v. plain (t q v)) \<Longrightarrow> plain (field (k, t) p v)"
  by (simp add: field_def)

lemma plain_invalid_type: "plain (Inl [invalid_type_issue e v p])"
  by (simp add: plain_def invalid_type_issue_def)

lemma plain_object1:
  "(\<And>q v. plain (t1 q v)) \<Longrightarrow> plain (z_object1 (k1, t1) mk p v)"
  by (cases v) (simp_all add: z_object1_def plain_map_sum plain_field plain_invalid_type)

lemma plain_object2:
  "(\<And>q v. plain (t1 q v)) \<Longrightarrow> (\<And>q v. plain (t2 q v)) \<Longrightarrow>
   plain (z_object2 (k1, t1) (k2, t2) mk p v)"
  by (cases v)
    (simp_all add: z_object2_def plain_map_sum plain_merge2 plain_field plain_invalid_type)

lemma plain_object3:
  "(\<And>q v. plain (t1 q v)) \<Longrightarrow> (\<And>q v. plain (t2 q v)) \<Longrightarrow>
   (\<And>q v. plain (t3 q v)) \<Longrightarrow> plain (z_object3 (k1, t1) (k2, t2) (k3, t3) mk p v)"
  by (cases v)
    (simp_all add: z_object3_def plain_map_sum plain_merge2 plain_field plain_invalid_type)

lemma plain_object4:
  "(\<And>q v. plain (t1 q v)) \<Longrightarrow> (\<And>q v. plain (t2 q v)) \<Longrightarrow>
   (\<And>q v. plain (t3 q v)) \<Longrightarrow> (\<And>q v. plain (t4 q v)) \<Longrightarrow>
   plain (z_object4 (k1, t1) (k2, t2) (k3, t3) (k4, t4) mk p v)"
  by (cases v)
    (simp_all add: z_object4_def plain_map_sum plain_merge2 plain_field plain_invalid_type)

lemma plain_items:
  assumes "\<And>q v. plain (item q v)"
  shows "plain (mergeArray (parse_items item p i xs))"
  by (induction xs arbitrary: i) (simp_all add: plain_map_sum plain_merge2 assms)

lemma plain_array: "(\<And>q v. plain (item q v)) \<Longrightarrow> plain (z_array item p v)"
  by (cases v) (simp_all add: z_array_def plain_items plain_invalid_type)

lemma plain_Schema: "plain (RandomUserApiResponseSchema p data)"
  unfolding RandomUserApiResponseSchema_def
  by (intro plain_object1 plain_array plain_object4 plain_object2 plain_object3
      plain_string plain_union)

lemma issue_json_path:
  "map_of (params i) ''path'' = None \<Longrightarrow>
   get_prop (issue_json i) ''path'' = VArr (map key_json (path i))"
  by (simp add: issue_json_def map_add_def [symmetric] map_add_Some_iff split: option.splits)

lemma detail_paths_issues:
  assumes "list_all (\<lambda>i. map_of (params i) ''path'' = None) is"
  shows "map (\<lambda>d. get_prop d ''path'') (map issue_json is) =
         map (\<lambda>p. VArr (map key_json p)) (map path is)"
  using assms by (induction "is") (simp_all add: issue_json_path)

text \<open>
  Claim C1, as amended. An upstream body fails validation exactly when some field is
  violated. Each of the three random routes then answers 500 with the validator's
  issues as they are, one for every violated field and in their order: every entry of
  \<^verbatim>\<open>details\<close> carries the path of its violated field as an array of keys (strings and
  indices), not as a dot-joined string, and no two entries have the same path.
\<close>

theorem random_routes_issue_paths:
  "(isl (parse RandomUserApiResponseSchema data) \<longleftrightarrow> violated_paths data \<noteq> []) \<and>
   (\<forall>e. parse RandomUserApiResponseSchema data = Inl e \<longrightarrow>
      (\<exists>is. e = ZodError is \<and> is \<noteq> [] \<and> distinct (map path is) \<and>
         map path is = violated_paths data \<and>
         random_person (Json data) =
           \<lparr>status = 500,
            body = VObj [(''error'', VStr ''Invalid response from RandomUser API''),
                         (''details'', VArr (map issue_json is))]\<rparr> \<and>
         random_address fmt (Json data) = random_person (Json data) \<and>
         random_login legacy (Json data) = random_person (Json data) \<and>
         detail_paths (random_person (Json data)) =
           map (\<lambda>p. VArr (map key_json p)) (violated_paths data)))"
proof (intro conjI allI impI)
  show "isl (parse RandomUserApiResponseSchema data) \<longleftrightarrow> violated_paths data \<noteq> []"
  proof (cases "RandomUserApiResponseSchema [] data")
    case (Inl "is")
    then show ?thesis
      using nonempty_Schema [of "[]" data] paths_Schema [of data]
      by (auto simp add: parse_def nonempty_def)
  next
    case (Inr v)
    then show ?thesis
      using paths_Schema [of data] by (simp add: parse_def)
  qed
next
  fix e
  assume fails: "parse RandomUserApiResponseSchema data = Inl e"
  then obtain "is" where e: "e = ZodError is"
    and r: "RandomUserApiResponseSchema [] data = Inl is"
    by (auto simp add: parse_def split: sum.splits)
  have ne: "is \<noteq> []"
    using nonempty_Schema [of "[]" data] by (simp add: r nonempty_def)
  have d: "distinct (map path is)"
    using located_Schema [of "[]" data] by (simp add: r located_def)
  have v: "map path is = violated_paths data"
    using paths_Schema [of data] by (simp add: r)
  have pl: "list_all (\<lambda>i. map_of (params i) ''path'' = None) is"
    using plain_Schema [of "[]" data] by (simp add: r plain_def)
  have p: "random_person (Json data) =
             \<lparr>status = 500,
              body = VObj [(''error'', VStr ''Invalid response from RandomUser API''),
                           (''details'', VArr (map issue_json is))]\<rparr>"
    using fails by (simp add: random_person_def fetch_person_def random_catch_def e)
  have a: "random_address fmt (Json data) = random_person (Json data)"
    using fails
    by (simp add: random_person_def random_address_def fetch_person_def random_catch_def e)
  have l: "random_login legacy (Json data) = random_person (Json data)"
    using fails
    by (simp add: random_person_def random_login_def fetch_person_def random_catch_def e)
  have m: "detail_paths (random_person (Json data)) =
             map (\<lambda>p. VArr (map key_json p)) (violated_paths data)"
    using detail_paths_issues [OF pl] by (simp add: p detail_paths_def details_of_def v)
  from e ne d v p a l m
  show "\<exists>is. e = ZodError is \<and> is \<noteq> [] \<and> distinct (map path is) \<and>
         map path is = violated_paths data \<and>
         random_person (Json data) =
           \<lparr>status = 500,
            body = VObj [(''error'', VStr ''Invalid response from RandomUser API''),
                         (''details'', VArr (map issue_json is))]\<rparr> \<and>
         random_address fmt (Json data) = random_person (Json data) \<and>
         random_login legacy (Json data) = random_person (Json data) \<and>
         detail_paths (random_person (Json data)) =
           map (\<lambda>p. VArr (map key_json p)) (violated_paths data)"
    by blast
qed

text \<open>A record without a last name and with a boolean postcode: two violated fields.\<close>

theorem random_routes_issue_paths_witness:
  "violated_paths (VObj [(''results'', VArr [record_no_last_bool_postcode])]) =
     [[KStr ''results'', KIdx 0, KStr ''name'', KStr ''last''],
      [KStr ''results'', KIdx 0, KStr ''location'', KStr ''postcode'']] \<and>
   isl (parse RandomUserApiResponseSchema (VObj [(''results'', VArr [record_no_last_bool_postcode])])) \<and>
   detail_paths (random_person (Json (VObj [(''results'', VArr [record_no_last_bool_postcode])]))) =
     [VArr [VStr ''results'', VNum (Finite 0), VStr ''name'', VStr ''last''],
      VArr [VStr ''results'', VNum (Finite 0), VStr ''location'', VStr ''postcode'']]"
proof -
  have v: "violated_paths (VObj [(''results'', VArr [record_no_last_bool_postcode])]) =
     [[KStr ''results'', KIdx 0, KStr ''name'', KStr ''last''],
      [KStr ''results'', KIdx 0, KStr ''location'', KStr ''postcode'']]"
    by code_simp
  have "isl (parse RandomUserApiResponseSchema (VObj [(''results'', VArr [record_no_last_bool_postcode])]))"
    by code_simp
  then obtain e where
    h: "parse RandomUserApiResponseSchema (VObj [(''results'', VArr [record_no_last_bool_postcode])]) = Inl e"
    by (auto simp add: isl_def)
  show ?thesis
    using random_routes_issue_paths
      [of "VObj [(''results'', VArr [record_no_last_bool_postcode])]" fmt_unused strict_Date_parse]
      h v
    by auto
qed

text \<open>
  Claim C1 as stated fails: for a boolean postcode the one entry of \<^verbatim>\<open>details\<close> has the
  path \<^verbatim>\<open>["results", 0, "location", "postcode"]\<close>, an array and not the string
  \<^verbatim>\<open>results.0.location.postcode\<close>, and it has no \<^verbatim>\<open>field\<close> member.
\<close>

theorem random_routes_path_is_array:
  "random_address fmt_unused (Json (VObj [(''results'', VArr [record_bool_postcode])])) =
     \<lparr>status = 500,
      body = VObj [(''error'', VStr ''Invalid response from RandomUser API''),
        (''details'',
         VArr [VObj [(''code'', VStr ''invalid_union''),
             (''unionErrors'',
              VArr [VObj [(''issues'',
                   VArr [VObj [(''code'', VStr ''invalid_type''),
                       (''expected'', VStr ''string''),
                       (''received'', VStr ''boolean''),
                       (''path'', VArr [VStr ''results'', VNum (Finite 0),
                                        VStr ''location'', VStr ''postcode'']),
                       (''message'', VStr ''Expected string, received boolean'')]]),
                  (''name'', VStr ''ZodError'')],
                VObj [(''issues'',
                   VArr [VObj [(''code'', VStr ''invalid_type''),
                       (''expected'', VStr ''number''),
                       (''received'', VStr ''boolean''),
                       (''path'', VArr [VStr ''results'', VNum (Finite 0),
                                        VStr ''location'', VStr ''postcode'']),
                       (''message'', VStr ''Expected number, received boolean'')]]),
                  (''name'', VStr ''ZodError'')]]),
             (''path'', VArr [VStr ''results'', VNum (Finite 0),
                              VStr ''location'', VStr ''postcode'']),
             (''message'', VStr ''Invalid input'')]])]\<rparr> \<and>
   detail_paths (random_address fmt_unused (Json (VObj [(''results'', VArr [record_bool_postcode])])))
     = [VArr [VStr ''results'', VNum (Finite 0), VStr ''location'', VStr ''postcode'']] \<and>
   detail_paths (random_address fmt_unused (Json (VObj [(''results'', VArr [record_bool_postcode])])))
     \<noteq> [VStr ''results.0.location.postcode''] \<and>
   detail_fields (random_address fmt_unused (Json (VObj [(''results'', VArr [record_bool_postcode])])))
     = [VUndefined]"
  by code_simp


section \<open>The registration date\<close>

lemma digit_char_not_T: "d < 10 \<Longrightarrow> CHR ''T'' \<noteq> digit_char d"
proof -
  assume "d < 10"
  then have "d \<in> {0, 1, 2, 3, 4, 5, 6, 7, 8, 9}"
    by auto
  then show ?thesis
    by (auto simp add: digit_char_def)
qed

lemma show_nat_not_T: "CHR ''T'' \<notin> set (show_nat n)"
proof (induction n rule: show_nat.induct)
  case (1 n)
  show ?case
  proof (cases "n < 10")
    case True
    then show ?thesis
      by (subst show_nat.simps) (simp add: digit_char_not_T)
  next
    case False
    then show ?thesis
      using "1.IH" by (subst show_nat.simps) (simp add: digit_char_not_T)
  qed
qed

lemma pad_not_T: "CHR ''T'' \<notin> set (pad w n)"
  by (simp add: pad_def show_nat_not_T)

lemma date_str_not_T: "CHR ''T'' \<notin> set (date_str t)"
  by (auto simp add: date_str_def year_str_def pad_not_T split: prod.splits)

lemma split_first: "c \<notin> set xs \<Longrightarrow> index0 (split c (xs @ c # ys)) = Some xs"
proof (induction xs)
  case Nil
  then show ?case by simp
next
  case (Cons x xs)
  then show ?case
    by (cases "split c (xs @ c # ys)") auto
qed

lemma formattedDate:
  "toISOString (Some t) = Inr isoString \<Longrightarrow> index0 (split (CHR ''T'') isoString) = Some (date_str t)"
  by (auto simp add: toISOString_def split_first date_str_not_T)

lemma new_Date_example: "new_Date legacy ''2020-05-01T00:00:00Z'' = Some 1588291200000"
proof -
  have "parse_iso ''2020-05-01T00:00:00Z'' = Some 1588291200000"
    by code_simp
  then show ?thesis
    by (simp add: new_Date_def Date_parse_def)
qed

lemma date_str_example: "date_str 1588291200000 = ''2020-05-01''"
  by code_simp

text \<open>
  Claim C4, as amended. For an upstream body that passes validation and has a first
  record, \<^verbatim>\<open>GET /random-login\<close> depends on what \<^verbatim>\<open>new Date\<close> makes of the registration
  date. When that is a valid date, the answer is 200 with the username, with
  \<^verbatim>\<open>registeredDate\<close> the UTC calendar date of that instant (the part of the ISO string
  before the \<^verbatim>\<open>T\<close>, without time of day) and with \<^verbatim>\<open>summary\<close> the username followed by
  \<^verbatim>\<open>(registered on <date>)\<close>. When it is an invalid date, the answer is the generic
  500 of the route. \<^verbatim>\<open>2020-05-01T00:00:00Z\<close> is a valid date with calendar date
  \<^verbatim>\<open>2020-05-01\<close>.
\<close>

theorem random_login_date:
  assumes "parse RandomUserApiResponseSchema data = Inr v" and "first_result data = Some x"
  shows "(\<exists>u d. get_prop (get_prop x ''login'') ''username'' = VStr u \<and>
            get_prop (get_prop x ''registered'') ''date'' = VStr d \<and>
            random_login legacy (Json data) =
              (case new_Date legacy d of
                 Some t \<Rightarrow>
                   \<lparr>status = 200,
                    body = VObj [(''username'', VStr u),
                                 (''registeredDate'', VStr (date_str t)),
                                 (''summary'', VStr (u @ '' (registered on '' @ date_str t @ '')''))]\<rparr>
               | None \<Rightarrow>
                   \<lparr>status = 500, body = VObj [(''error'', VStr ''Failed to fetch random login'')]\<rparr>)) \<and>
         new_Date legacy ''2020-05-01T00:00:00Z'' = Some 1588291200000 \<and>
         date_str 1588291200000 = ''2020-05-01''"
proof (intro conjI)
  from fetch_person_Inr [OF assms(1)] assms(2) obtain p
    where p: "fetch_person (Json data) = Inr (Some p)"
      and x: "PersonSchema [KStr ''results'', KIdx 0] x = Inr p"
    by auto
  from x have u: "get_prop (get_prop x ''login'') ''username'' = VStr (username (login p))"
    and d: "get_prop (get_prop x ''registered'') ''date'' = VStr (date (registered p))"
    by (simp_all add: PersonSchema_Inr)
  have "random_login legacy (Json data) =
              (case new_Date legacy (date (registered p)) of
                 Some t \<Rightarrow>
                   \<lparr>status = 200,
                    body = VObj [(''username'', VStr (username (login p))),
                                 (''registeredDate'', VStr (date_str t)),
                                 (''summary'', VStr (username (login p) @ '' (registered on '' @ date_str t @ '')''))]\<rparr>
               | None \<Rightarrow>
                   \<lparr>status = 500, body = VObj [(''error'', VStr ''Failed to fetch random login'')]\<rparr>)"
  proof (cases "new_Date legacy (date (registered p))")
    case None
    then show ?thesis
      by (simp add: random_login_def p toISOString_def random_catch_def)
  next
    case (Some t)
    obtain isoString where iso: "toISOString (Some t) = Inr isoString"
      by (simp add: toISOString_def)
    from formattedDate [OF iso] iso show ?thesis
      by (simp add: random_login_def p Some)
  qed
  with u d show "\<exists>u d. get_prop (get_prop x ''login'') ''username'' = VStr u \<and>
            get_prop (get_prop x ''registered'') ''date'' = VStr d \<and>
            random_login legacy (Json data) =
              (case new_Date legacy d of
                 Some t \<Rightarrow>
                   \<lparr>status = 200,
                    body = VObj [(''username'', VStr u),
                                 (''registeredDate'', VStr (date_str t)),
                                 (''summary'', VStr (u @ '' (registered on '' @ date_str t @ '')''))]\<rparr>
               | None \<Rightarrow>
                   \<lparr>status = 500, body = VObj [(''error'', VStr ''Failed to fetch random login'')]\<rparr>)"
    by blast
next
  show "new_Date legacy ''2020-05-01T00:00:00Z'' = Some 1588291200000"
    by (rule new_Date_example)
next
  show "date_str 1588291200000 = ''2020-05-01''"
    by (rule date_str_example)
qed

text \<open>The record of the specification: username \<^verbatim>\<open>ada\<close>, registered 2020-05-01T00:00:00Z.\<close>

theorem random_login_date_witness:
  "first_result upstream_ada = Some record_ada \<and>
   get_prop (get_prop record_ada ''login'') ''username'' = VStr ''ada'' \<and>
   get_prop (get_prop record_ada ''registered'') ''date'' = VStr ''2020-05-01T00:00:00Z'' \<and>
   random_login strict_Date_parse (Json upstream_ada) =
     \<lparr>status = 200,
      body = VObj [(''username'', VStr ''ada''),
                   (''registeredDate'', VStr ''2020-05-01''),
                   (''summary'', VStr ''ada (registered on 2020-05-01)'')]\<rparr>"
proof -
  obtain v where h1: "parse RandomUserApiResponseSchema upstream_ada = Inr v"
    using parse_ada ..
  have h2: "first_result upstream_ada = Some record_ada"
    by (simp add: first_result_def upstream_ada_def)
  have u: "get_prop (get_prop record_ada ''login'') ''username'' = VStr ''ada''"
    and d: "get_prop (get_prop record_ada ''registered'') ''date'' = VStr ''2020-05-01T00:00:00Z''"
    by (simp_all add: record_ada_def)
  from random_login_date [OF h1 h2, of strict_Date_parse] u d
  have "random_login strict_Date_parse (Json upstream_ada) =
     \<lparr>status = 200,
      body = VObj [(''username'', VStr ''ada''),
                   (''registeredDate'', VStr ''2020-05-01''),
                   (''summary'', VStr ''ada (registered on 2020-05-01)'')]\<rparr>"
    by auto
  with h2 u d show ?thesis
    by simp
qed

text \<open>
  Claim C4 as stated fails: a record whose registration date is the empty string passes
  validation, \<^verbatim>\<open>new Date("")\<close> is an invalid date, \<^verbatim>\<open>toISOString\<close> throws and the route
  answers with its generic 500 instead of a username and a date.
\<close>

theorem random_login_invalid_date:
  "parse RandomUserApiResponseSchema upstream_no_date =
     Inr \<lparr>results =
            [\<lparr>person.name = \<lparr>first = ''Ada'', last' = ''Lovelace''\<rparr>,
              location = \<lparr>country = ''UK'', city = ''London'', postcode = Inr (Finite 12345)\<rparr>,
              login = \<lparr>username = ''ada''\<rparr>,
              registered = \<lparr>date = []\<rparr>\<rparr>]\<rparr> \<and>
   random_login strict_Date_parse (Json upstream_no_date) =
     \<lparr>status = 500, body = VObj [(''error'', VStr ''Failed to fetch random login'')]\<rparr>"
proof
  show "parse RandomUserApiResponseSchema upstream_no_date =
     Inr \<lparr>results =
            [\<lparr>person.name = \<lparr>first = ''Ada'', last' = ''Lovelace''\<rparr>,
              location = \<lparr>country = ''UK'', city = ''London'', postcode = Inr (Finite 12345)\<rparr>,
              login = \<lparr>username = ''ada''\<rparr>,
              registered = \<lparr>date = []\<rparr>\<rparr>]\<rparr>"
    by (simp add: parse_def RandomUserApiResponseSchema_def upstream_no_date_def
      z_object1_def z_object2_def z_object3_def z_object4_def z_array_def z_string_def z_union_def
      z_number_def field_def)
  show "random_login strict_Date_parse (Json upstream_no_date) =
     \<lparr>status = 500, body = VObj [(''error'', VStr ''Failed to fetch random login'')]\<rparr>"
    by code_simp
qed

end
